theory Spec2Isabelle
  imports Main "HOL-Library.FSet" "HOL-Library.Sublist"
begin

section \<open>Data model\<close>

text \<open>
  The photo objects of the source API are Python dictionaries. A key read with
  \<open>.get(key, default)\<close> is an optional field (\<open>None\<close>: the key is absent, and the
  accessor below supplies the default of the source); a key read with \<open>[key]\<close> is an
  optional field whose absence raises \<open>KeyError\<close>. Numbers are Python integers, of
  either sign.
\<close>

record size_variant =
  width :: "int option"
  height :: "int option"
  url :: "string option"
  size_type :: "string option"

record photo =
  photo_id :: "int option"
  date :: "int option"
  likes :: "int option"
  sizes :: "size_variant list"

text \<open>The texts of the exceptions the program raises itself.\<close>

datatype message =
    SizesNotFound
  | InvalidYandexToken
  | InvalidVkToken
  | VkApiError "string option"
  | NoPhotosInProfile
  | NothingUploaded

datatype error =
    ValueError message
  | KeyError string
  | RequestException
  | JSONDecodeError
  | DateError
  | IOError
  | TypeError

section \<open>SizeSelector: \<open>get_largest_photo_size\<close>\<close>

definition get_width :: "size_variant \<Rightarrow> int" where
  "get_width s = (case width s of None \<Rightarrow> 0 | Some w \<Rightarrow> w)"

definition get_height :: "size_variant \<Rightarrow> int" where
  "get_height s = (case height s of None \<Rightarrow> 0 | Some h \<Rightarrow> h)"

definition total_pixels :: "size_variant \<Rightarrow> int" where
  "total_pixels s = get_width s * get_height s"

text \<open>The \<open>for size in sizes\<close> loop, with its two variables \<open>max_size\<close> and \<open>best_photo\<close>.\<close>

fun largest_loop :: "size_variant list \<Rightarrow> int \<Rightarrow> size_variant \<Rightarrow> size_variant" where
  "largest_loop [] max_size best_photo = best_photo"
| "largest_loop (s # rest) max_size best_photo =
     (if total_pixels s > max_size then largest_loop rest (total_pixels s) s
      else largest_loop rest max_size best_photo)"

text \<open>The \<open>return best_photo['url'], best_photo['type']\<close> of the source.\<close>

definition url_and_type :: "size_variant \<Rightarrow> error + (string \<times> string)" where
  "url_and_type best_photo =
     (case url best_photo of
        None \<Rightarrow> Inl (KeyError ''url'')
      | Some u \<Rightarrow>
          (case size_type best_photo of
             None \<Rightarrow> Inl (KeyError ''type'')
           | Some t \<Rightarrow> Inr (u, t)))"

definition get_largest_photo_size :: "photo \<Rightarrow> error + (string \<times> string)" where
  "get_largest_photo_size p =
     (case sizes p of
        [] \<Rightarrow> Inl (ValueError SizesNotFound)
      | s0 # _ \<Rightarrow> url_and_type (largest_loop (sizes p) 0 s0))"

section \<open>FilenameAllocator: \<open>generate_filename\<close>\<close>

text \<open>Decimal text of an integer, as an f-string renders it.\<close>

definition digit_char :: "nat \<Rightarrow> char" where
  "digit_char d = ''0123456789'' ! d"

fun show_nat :: "nat \<Rightarrow> string" where
  "show_nat n = (if n < 10 then [digit_char n] else show_nat (n div 10) @ [digit_char (n mod 10)])"

declare show_nat.simps [simp del]

definition show_int :: "int \<Rightarrow> string" where
  "show_int i = (if i < 0 then ''-'' @ show_nat (nat (- i)) else show_nat (nat i))"

definition likes_count :: "photo \<Rightarrow> int" where
  "likes_count p = (case likes p of None \<Rightarrow> 0 | Some c \<Rightarrow> c)"

definition get_id :: "photo \<Rightarrow> int" where
  "get_id p = (case photo_id p of None \<Rightarrow> 0 | Some i \<Rightarrow> i)"

definition get_date :: "photo \<Rightarrow> int" where
  "get_date p = (case date p of None \<Rightarrow> 0 | Some d \<Rightarrow> d)"

definition same_likes_photos :: "photo list \<Rightarrow> int \<Rightarrow> photo list" where
  "same_likes_photos photos c = filter (\<lambda>p. likes_count p = c) photos"

text \<open>
  \<open>datetime.fromtimestamp(t).strftime('%Y-%m-%d')\<close> belongs to the standard library and
  depends on the local time zone of the machine; it is the parameter \<open>strftime_date\<close>,
  which is \<open>None\<close> where the library raises (a timestamp outside the supported range).
\<close>

definition base_filename ::
  "(int \<Rightarrow> string option) \<Rightarrow> photo \<Rightarrow> photo list \<Rightarrow> error + string" where
  "base_filename strftime_date p photos =
     (if length (same_likes_photos photos (likes_count p)) > 1 then
        (case strftime_date (get_date p) of
           None \<Rightarrow> Inl DateError
         | Some date_str \<Rightarrow> Inr (show_int (likes_count p) @ ''_'' @ date_str))
      else Inr (show_int (likes_count p)))"

text \<open>The name the body of the \<open>while\<close> loop builds when the counter is \<open>counter\<close>.\<close>

definition retry_name :: "string \<Rightarrow> int \<Rightarrow> nat \<Rightarrow> string" where
  "retry_name base pid counter =
     (if counter = 1 then base @ ''_'' @ show_int pid @ ''.jpg''
      else base @ ''_'' @ show_int pid @ ''_'' @ show_nat counter @ ''.jpg'')"

text \<open>
  The loop \<open>while filename in used_filenames\<close>, on its two variables \<open>filename\<close> and
  \<open>counter\<close>. Not returning is the value \<open>None\<close>.
\<close>

partial_function (option) filename_loop ::
  "string \<Rightarrow> int \<Rightarrow> string fset \<Rightarrow> string \<Rightarrow> nat \<Rightarrow> string option" where
  "filename_loop base pid used_filenames filename counter =
     (if filename |\<in>| used_filenames
      then filename_loop base pid used_filenames (retry_name base pid counter) (counter + 1)
      else Some filename)"

declare filename_loop.simps [code]

text \<open>
  The result is the returned filename together with the tracking set after the call, the
  only object the function writes to.
\<close>

definition generate_filename ::
  "(int \<Rightarrow> string option) \<Rightarrow> photo \<Rightarrow> photo list \<Rightarrow> string fset
     \<Rightarrow> (error + string \<times> string fset) option" where
  "generate_filename strftime_date p photos used_filenames =
     (case base_filename strftime_date p photos of
        Inl e \<Rightarrow> Some (Inl e)
      | Inr base \<Rightarrow>
          (case filename_loop base (get_id p) used_filenames (base @ ''.jpg'') 1 of
             None \<Rightarrow> None
           | Some filename \<Rightarrow> Some (Inr (filename, finsert filename used_filenames))))"

text \<open>
  One run of the allocator: successive calls on the photos of \<open>order\<close>, all against the
  photo list \<open>photos\<close> and one tracking set; a call that raises leaves the set as it was
  and the run goes on, as in the upload loop. The result lists the returned filenames.
\<close>

fun allocate_run ::
  "(int \<Rightarrow> string option) \<Rightarrow> photo list \<Rightarrow> photo list \<Rightarrow> string fset
     \<Rightarrow> (string list \<times> string fset) option" where
  "allocate_run strftime_date [] photos used_filenames = Some ([], used_filenames)"
| "allocate_run strftime_date (p # ps) photos used_filenames =
     (case generate_filename strftime_date p photos used_filenames of
        None \<Rightarrow> None
      | Some (Inl e) \<Rightarrow> allocate_run strftime_date ps photos used_filenames
      | Some (Inr (filename, used')) \<Rightarrow>
          (case allocate_run strftime_date ps photos used' of
             None \<Rightarrow> None
           | Some (names, used'') \<Rightarrow> Some (filename # names, used'')))"

section \<open>The allocator on a store of objects\<close>

text \<open>
  In the program the photo, the photo list and the tracking set are objects that
  \<open>generate_filename\<close> receives by reference; the photo is usually one of the objects the
  list refers to. The store maps references to objects, and the function takes the store
  and hands back the store it leaves behind. A reference that holds an object of another
  kind than the one the function needs makes it raise (\<open>TypeError\<close>).
\<close>

type_synonym ref = nat

datatype obj = PhotoObj photo | ListObj "ref list" | SetObj "string fset"

type_synonym store = "ref \<Rightarrow> obj option"

fun read_photos :: "store \<Rightarrow> ref list \<Rightarrow> photo list option" where
  "read_photos h [] = Some []"
| "read_photos h (r # rs) =
     (case h r of
        Some (PhotoObj p) \<Rightarrow>
          (case read_photos h rs of None \<Rightarrow> None | Some ps \<Rightarrow> Some (p # ps))
      | _ \<Rightarrow> None)"

text \<open>The \<open>while\<close> loop: each test \<open>filename in used_filenames\<close> reads the set in the store.\<close>

partial_function (option) filename_loop_store ::
  "store \<Rightarrow> ref \<Rightarrow> string \<Rightarrow> int \<Rightarrow> string \<Rightarrow> nat \<Rightarrow> ((error + string) \<times> store) option" where
  "filename_loop_store h used_ref base pid filename counter =
     (case h used_ref of
        Some (SetObj used_filenames) \<Rightarrow>
          (if filename |\<in>| used_filenames
           then filename_loop_store h used_ref base pid (retry_name base pid counter) (counter + 1)
           else Some (Inr filename, h))
      | _ \<Rightarrow> Some (Inl TypeError, h))"

declare filename_loop_store.simps [code]

text \<open>
  The whole function: it reads the photo and the photos of the list, builds the base
  name, runs the loop, and its last statement \<open>used_filenames.add(filename)\<close> writes the
  set object.
\<close>

definition generate_filename_store ::
  "(int \<Rightarrow> string option) \<Rightarrow> store \<Rightarrow> ref \<Rightarrow> ref \<Rightarrow> ref
     \<Rightarrow> ((error + string) \<times> store) option" where
  "generate_filename_store strftime_date h photo_ref photos_ref used_ref =
     (case h photo_ref of
        Some (PhotoObj p) \<Rightarrow>
          (case h photos_ref of
             Some (ListObj items) \<Rightarrow>
               (case read_photos h items of
                  None \<Rightarrow> Some (Inl TypeError, h)
                | Some photos \<Rightarrow>
                    (case base_filename strftime_date p photos of
                       Inl e \<Rightarrow> Some (Inl e, h)
                     | Inr base \<Rightarrow>
                         (case filename_loop_store h used_ref base (get_id p)
                                 (base @ ''.jpg'') 1 of
                            None \<Rightarrow> None
                          | Some (Inl e, h1) \<Rightarrow> Some (Inl e, h1)
                          | Some (Inr filename, h1) \<Rightarrow>
                              (case h1 used_ref of
                                 Some (SetObj used_filenames) \<Rightarrow>
                                   Some (Inr filename,
                                         h1(used_ref \<mapsto>
                                              SetObj (finsert filename used_filenames)))
                               | _ \<Rightarrow> Some (Inl TypeError, h1)))))
           | _ \<Rightarrow> Some (Inl TypeError, h))
      | _ \<Rightarrow> Some (Inl TypeError, h))"

section \<open>The network and the file system\<close>

text \<open>
  The two remote services and the local file system are outside the program. A request
  is answered by \<open>env_answer\<close>, a function of the requests sent so far and of the request
  itself, so that any deterministic behaviour of the services is covered; sending appends
  the request to the history. A reply is a transport failure (the \<open>requests\<close> library
  raises \<open>RequestException\<close>) or an HTTP status with the decoded body.
\<close>

datatype json =
    NotJson
  | JError "int option" "string option"
  | JData "photo list"

datatype reply = TransportFailure | Http nat json

datatype request =
    VkProfileInfo
  | VkPhotosGet string int
  | DiskGet string
  | DiskPut string
  | DiskUpload string string

record manifest_entry =
  file_name :: string
  size_tag :: string

record env =
  env_answer :: "request list \<Rightarrow> request \<Rightarrow> reply"
  env_write_ok :: "string \<Rightarrow> bool"
  env_strftime :: "int \<Rightarrow> string option"
  env_today :: string

record world =
  history :: "request list"
  files :: "(string \<times> manifest_entry list) list"

text \<open>What a method declared \<open>-> bool\<close> hands back: \<open>True\<close>, or \<open>None\<close> when it falls off its end.\<close>

datatype pyret = PyTrue | PyNone

definition send :: "env \<Rightarrow> world \<Rightarrow> request \<Rightarrow> reply \<times> world" where
  "send e w r = (env_answer e (history w) r, w\<lparr>history := history w @ [r]\<rparr>)"

text \<open>\<open>Response.raise_for_status\<close>: raises for the statuses 400 to 599 and for no other.\<close>

definition raise_for_status :: "nat \<Rightarrow> error + unit" where
  "raise_for_status status = (if 400 \<le> status \<and> status < 600 then Inl RequestException else Inr ())"

section \<open>SourceClient\<close>

definition check_vk_token_validity :: "env \<Rightarrow> world \<Rightarrow> (error + pyret) \<times> world" where
  "check_vk_token_validity e w =
     (case send e w VkProfileInfo of
        (TransportFailure, w') \<Rightarrow> (Inl RequestException, w')
      | (Http status body, w') \<Rightarrow>
          (case raise_for_status status of
             Inl err \<Rightarrow> (Inl err, w')
           | Inr _ \<Rightarrow>
               (case body of
                  NotJson \<Rightarrow> (Inl JSONDecodeError, w')
                | JError code msg \<Rightarrow>
                    (if (case code of None \<Rightarrow> 0 | Some c \<Rightarrow> c) = 5
                     then (Inl (ValueError InvalidVkToken), w')
                     else (Inl (ValueError (VkApiError msg)), w'))
                | JData _ \<Rightarrow> (Inr PyTrue, w'))))"

definition get_profile_photos ::
  "env \<Rightarrow> world \<Rightarrow> string \<Rightarrow> int \<Rightarrow> (error + photo list) \<times> world" where
  "get_profile_photos e w user_id count =
     (case send e w (VkPhotosGet user_id count) of
        (TransportFailure, w') \<Rightarrow> (Inl RequestException, w')
      | (Http status body, w') \<Rightarrow>
          (case raise_for_status status of
             Inl err \<Rightarrow> (Inl err, w')
           | Inr _ \<Rightarrow>
               (case body of
                  NotJson \<Rightarrow> (Inl JSONDecodeError, w')
                | JError code msg \<Rightarrow> (Inl (ValueError (VkApiError msg)), w')
                | JData items \<Rightarrow> (Inr items, w'))))"

section \<open>DestinationClient\<close>

definition check_yandex_disk_availability :: "env \<Rightarrow> world \<Rightarrow> (error + pyret) \<times> world" where
  "check_yandex_disk_availability e w =
     (case send e w (DiskGet ''/'') of
        (TransportFailure, w') \<Rightarrow> (Inl RequestException, w')
      | (Http status body, w') \<Rightarrow>
          (if status = 401 then (Inl (ValueError InvalidYandexToken), w')
           else if status = 200 then (Inr PyTrue, w')
           else (case raise_for_status status of
                   Inl err \<Rightarrow> (Inl err, w')
                 | Inr _ \<Rightarrow> (Inr PyNone, w'))))"

definition check_folder_exists :: "env \<Rightarrow> world \<Rightarrow> string \<Rightarrow> bool \<times> world" where
  "check_folder_exists e w folder_name =
     (case send e w (DiskGet (''/'' @ folder_name)) of
        (TransportFailure, w') \<Rightarrow> (False, w')
      | (Http status body, w') \<Rightarrow> (status = 200, w'))"

definition create_yandex_folder :: "env \<Rightarrow> world \<Rightarrow> string \<Rightarrow> (error + pyret) \<times> world" where
  "create_yandex_folder e w folder_name =
     (case check_folder_exists e w folder_name of
        (True, w1) \<Rightarrow> (Inr PyTrue, w1)
      | (False, w1) \<Rightarrow>
          (case send e w1 (DiskPut (''/'' @ folder_name)) of
             (TransportFailure, w2) \<Rightarrow> (Inl RequestException, w2)
           | (Http status body, w2) \<Rightarrow>
               (if status = 201 then (Inr PyTrue, w2)
                else if status = 409 then (Inr PyTrue, w2)
                else (case raise_for_status status of
                        Inl err \<Rightarrow> (Inl err, w2)
                      | Inr _ \<Rightarrow> (Inr PyNone, w2)))))"

definition upload_photo_to_yandex ::
  "env \<Rightarrow> world \<Rightarrow> string \<Rightarrow> string \<Rightarrow> string \<Rightarrow> (error + pyret) \<times> world" where
  "upload_photo_to_yandex e w photo_url filename folder_name =
     (case send e w (DiskUpload (''/'' @ folder_name @ ''/'' @ filename) photo_url) of
        (TransportFailure, w') \<Rightarrow> (Inl RequestException, w')
      | (Http status body, w') \<Rightarrow>
          (if status = 202 then (Inr PyTrue, w')
           else (case raise_for_status status of
                   Inl err \<Rightarrow> (Inl err, w')
                 | Inr _ \<Rightarrow> (Inr PyNone, w'))))"

text \<open>
  The storage service as the interface description gives it: a folder exists when it was
  there at the start or a creation request for it was sent; the existence check answers
  200 or 404, and creation answers 201, or 409 for a folder that exists.
\<close>

definition folder_present :: "string list \<Rightarrow> request list \<Rightarrow> string \<Rightarrow> bool" where
  "folder_present initial hist path = (path \<in> set initial \<or> DiskPut path \<in> set hist)"

fun ideal_disk :: "string list \<Rightarrow> request list \<Rightarrow> request \<Rightarrow> reply" where
  "ideal_disk initial hist (DiskGet path) =
     Http (if folder_present initial hist path then 200 else 404) NotJson"
| "ideal_disk initial hist (DiskPut path) =
     Http (if folder_present initial hist path then 409 else 201) NotJson"
| "ideal_disk initial hist (DiskUpload path source) = Http 202 NotJson"
| "ideal_disk initial hist VkProfileInfo = TransportFailure"
| "ideal_disk initial hist (VkPhotosGet user_id count) = TransportFailure"

section \<open>BackupOrchestrator: \<open>backup_photos\<close>\<close>

definition save_photos_info ::
  "env \<Rightarrow> world \<Rightarrow> manifest_entry list \<Rightarrow> string \<Rightarrow> (error + string) \<times> world" where
  "save_photos_info e w info user_id =
     (let filename = ''photos_info_'' @ user_id @ ''.json'' in
      if env_write_ok e filename
      then (Inr filename, w\<lparr>files := (filename, info) # files w\<rparr>)
      else (Inl IOError, w))"

text \<open>The values of the result dictionary; the dictionary is the list of its items.\<close>

datatype pyvalue =
    PyBool bool
  | PyInt int
  | PyStr string
  | PyMessage message
  | PyExcText error
  | PyList "manifest_entry list"

type_synonym result = "(string \<times> pyvalue) list"

definition failed :: "error \<Rightarrow> result" where
  "failed err = [(''success'', PyBool False), (''message'', PyExcText err)]"

definition get_max_size :: "photo \<Rightarrow> int" where
  "get_max_size p = (if sizes p = [] then 0 else Max (set (map total_pixels (sizes p))))"

text \<open>
  \<open>photos.sort(key=get_max_size, reverse=True)\<close>: a stable sort in descending order,
  which keeps photos of equal key in the order they came in.
\<close>

definition sort_photos :: "photo list \<Rightarrow> photo list" where
  "sort_photos photos = rev (sort_key get_max_size (rev photos))"

record loop_state =
  ls_world :: world
  ls_photos_info :: "manifest_entry list"
  ls_successful_uploads :: nat
  ls_used_filenames :: "string fset"

text \<open>
  The body of the \<open>for\<close> loop with its \<open>try\<close> and \<open>except Exception\<close>: an exception of any
  of the three calls ends the work on this photo only. The tracking set keeps a name
  that was generated before the upload raised.
\<close>

definition process_photo ::
  "env \<Rightarrow> photo list \<Rightarrow> string \<Rightarrow> loop_state \<Rightarrow> photo \<Rightarrow> loop_state option" where
  "process_photo e photos folder_name st p =
     (case get_largest_photo_size p of
        Inl err \<Rightarrow> Some st
      | Inr (photo_url, stype) \<Rightarrow>
          (case generate_filename (env_strftime e) p photos (ls_used_filenames st) of
             None \<Rightarrow> None
           | Some (Inl err) \<Rightarrow> Some st
           | Some (Inr (filename, used')) \<Rightarrow>
               (case upload_photo_to_yandex e (ls_world st) photo_url filename folder_name of
                  (Inl err, w') \<Rightarrow> Some (st\<lparr>ls_world := w', ls_used_filenames := used'\<rparr>)
                | (Inr _, w') \<Rightarrow>
                    Some \<lparr>ls_world = w',
                          ls_photos_info =
                            ls_photos_info st @ [\<lparr>file_name = filename, size_tag = stype\<rparr>],
                          ls_successful_uploads = ls_successful_uploads st + 1,
                          ls_used_filenames = used'\<rparr>)))"

fun upload_loop ::
  "env \<Rightarrow> photo list \<Rightarrow> string \<Rightarrow> photo list \<Rightarrow> loop_state \<Rightarrow> loop_state option" where
  "upload_loop e photos folder_name [] st = Some st"
| "upload_loop e photos folder_name (p # rest) st =
     (case process_photo e photos folder_name st p of
        None \<Rightarrow> None
      | Some st' \<Rightarrow> upload_loop e photos folder_name rest st')"

definition backup_photos ::
  "env \<Rightarrow> world \<Rightarrow> string \<Rightarrow> int \<Rightarrow> (result \<times> world) option" where
  "backup_photos e w user_id count =
     (case check_vk_token_validity e w of
        (Inl err, w1) \<Rightarrow> Some (failed err, w1)
      | (Inr _, w1) \<Rightarrow>
     (case check_yandex_disk_availability e w1 of
        (Inl err, w2) \<Rightarrow> Some (failed err, w2)
      | (Inr _, w2) \<Rightarrow>
     (case get_profile_photos e w2 user_id count of
        (Inl err, w3) \<Rightarrow> Some (failed err, w3)
      | (Inr fetched, w3) \<Rightarrow>
          if fetched = []
          then Some ([(''success'', PyBool False), (''message'', PyMessage NoPhotosInProfile)], w3)
          else
            (let photos = sort_photos fetched;
                 folder_name = ''VK_Photos_'' @ user_id @ ''_'' @ env_today e
             in
             case create_yandex_folder e w3 folder_name of
               (Inl err, w4) \<Rightarrow> Some (failed err, w4)
             | (Inr _, w4) \<Rightarrow>
                 (case upload_loop e photos folder_name photos
                         \<lparr>ls_world = w4, ls_photos_info = [], ls_successful_uploads = 0,
                          ls_used_filenames = {||}\<rparr> of
                    None \<Rightarrow> None
                  | Some st \<Rightarrow>
                      if ls_successful_uploads st = 0
                      then Some ([(''success'', PyBool False),
                                  (''message'', PyMessage NothingUploaded)], ls_world st)
                      else
                        (case save_photos_info e (ls_world st) (ls_photos_info st) user_id of
                           (Inl err, w5) \<Rightarrow> Some (failed err, w5)
                         | (Inr json_filename, w5) \<Rightarrow>
                             Some ([(''success'', PyBool True),
                                    (''total_photos'', PyInt (int (length photos))),
                                    (''uploaded_photos'', PyInt (int (ls_successful_uploads st))),
                                    (''folder_name'', PyStr folder_name),
                                    (''json_file'', PyStr json_filename),
                                    (''photos_info'', PyList (ls_photos_info st))], w5)))))))"

section \<open>Notions used to state the properties of a run\<close>

text \<open>A reply to an upload request on which \<open>upload_photo_to_yandex\<close> raises.\<close>

fun upload_raises :: "reply \<Rightarrow> bool" where
  "upload_raises TransportFailure = True"
| "upload_raises (Http status body) = (400 \<le> status \<and> status < 600)"

text \<open>
  When the storage service answers an upload by the resource link alone
  (\<open>upload_reply\<close>), a photo is uploaded exactly when its size selection returns, its
  base name can be built and the answer for its link raises nothing.
\<close>

definition item_uploads ::
  "(int \<Rightarrow> string option) \<Rightarrow> (string \<Rightarrow> reply) \<Rightarrow> photo list \<Rightarrow> photo \<Rightarrow> bool" where
  "item_uploads strf upload_reply photos p =
     (case get_largest_photo_size p of
        Inl err \<Rightarrow> False
      | Inr (link, stype) \<Rightarrow>
          (case base_filename strf p photos of
             Inl err \<Rightarrow> False
           | Inr base \<Rightarrow> \<not> upload_raises (upload_reply link)))"

text \<open>
  A manifest entry that belongs to a photo: its size tag is the type of the photo's
  largest variant, and its filename starts with the photo's popularity count and ends
  with the extension.
\<close>

definition entry_for :: "photo \<Rightarrow> manifest_entry \<Rightarrow> bool" where
  "entry_for p x =
     ((case get_largest_photo_size p of
         Inl err \<Rightarrow> False
       | Inr (link, stype) \<Rightarrow> size_tag x = stype) \<and>
      prefix (show_int (likes_count p)) (file_name x) \<and>
      suffix ''.jpg'' (file_name x))"

section \<open>Concrete runs\<close>

text \<open>The inputs at which the theorems below are evaluated.\<close>

definition variant :: "string \<Rightarrow> int \<Rightarrow> int \<Rightarrow> string \<Rightarrow> size_variant" where
  "variant tag w h link = \<lparr>width = Some w, height = Some h, url = Some link, size_type = Some tag\<rparr>"

definition demo_strftime :: "int \<Rightarrow> string option" where
  "demo_strftime t =
     (if t = 0 then Some ''1970-01-01'' else if t = 86400 then Some ''1970-01-02'' else None)"

definition photo_a :: photo where
  "photo_a = \<lparr>photo_id = Some 101, date = Some 0, likes = Some 5,
               sizes = [variant ''s'' 900 100 ''a-s'', variant ''y'' 800 500 ''a-y'',
                        variant ''z'' 500 800 ''a-z'']\<rparr>"

definition photo_b :: photo where
  "photo_b = \<lparr>photo_id = Some 102, date = Some 86400, likes = Some 5,
               sizes = [variant ''z'' 900 800 ''b-z'']\<rparr>"

definition photo_c :: photo where
  "photo_c = \<lparr>photo_id = Some 103, date = Some 0, likes = Some 7,
               sizes = [variant ''x'' 600 500 ''c-x'']\<rparr>"

definition photo_d :: photo where
  "photo_d = \<lparr>photo_id = Some 104, date = Some 0, likes = Some 5,
               sizes = [variant ''x'' 600 400 ''d-x'']\<rparr>"

definition photo_e :: photo where
  "photo_e = \<lparr>photo_id = Some 105, date = None, likes = None,
               sizes = [variant ''m'' 130 100 ''e-m'']\<rparr>"

definition photo_without_sizes :: photo where
  "photo_without_sizes = \<lparr>photo_id = Some 106, date = Some 0, likes = Some 1, sizes = []\<rparr>"

definition photo_negative :: photo where
  "photo_negative = \<lparr>photo_id = Some 107, date = Some 0, likes = Some 2,
                      sizes = [variant ''s'' (- 1) 5 ''n-s'', variant ''m'' 0 0 ''n-m'']\<rparr>"

definition five_photos :: "photo list" where
  "five_photos = [photo_c, photo_a, photo_b, photo_d, photo_e]"

text \<open>
  A source account holding \<open>items\<close>, and a storage service that holds the root folder,
  creates folders as \<open>ideal_disk\<close> does and answers an upload of the resource \<open>link\<close> by
  \<open>upload_reply link\<close>.
\<close>

fun demo_answer :: "photo list \<Rightarrow> (string \<Rightarrow> reply) \<Rightarrow> request list \<Rightarrow> request \<Rightarrow> reply" where
  "demo_answer items upload_reply hist VkProfileInfo = Http 200 (JData [])"
| "demo_answer items upload_reply hist (VkPhotosGet user_id n) = Http 200 (JData items)"
| "demo_answer items upload_reply hist (DiskUpload path link) = upload_reply link"
| "demo_answer items upload_reply hist (DiskGet path) = ideal_disk [''/''] hist (DiskGet path)"
| "demo_answer items upload_reply hist (DiskPut path) = ideal_disk [''/''] hist (DiskPut path)"

definition demo_env :: "photo list \<Rightarrow> (string \<Rightarrow> reply) \<Rightarrow> env" where
  "demo_env items upload_reply =
     \<lparr>env_answer = demo_answer items upload_reply, env_write_ok = (\<lambda>name. True),
      env_strftime = demo_strftime, env_today = ''2024-01-15''\<rparr>"

definition fresh_world :: world where
  "fresh_world = \<lparr>history = [], files = []\<rparr>"

definition one_transport_fault :: "string \<Rightarrow> reply" where
  "one_transport_fault link = (if link = ''b-z'' then TransportFailure else Http 202 NotJson)"

definition always :: "nat \<Rightarrow> string \<Rightarrow> reply" where
  "always status link = Http status NotJson"

text \<open>
  A storage service that is out of step with itself: the existence check never finds the
  folder, and the creation request reports that it is there.
\<close>

fun racing_answer :: "request list \<Rightarrow> request \<Rightarrow> reply" where
  "racing_answer hist (DiskPut path) = Http 409 NotJson"
| "racing_answer hist r = Http 404 NotJson"

definition racing_env :: env where
  "racing_env = \<lparr>env_answer = racing_answer, env_write_ok = (\<lambda>name. True),
                  env_strftime = demo_strftime, env_today = ''2024-01-15''\<rparr>"

text \<open>
  A store in which the photo behind reference 0 is also the first element of the list
  behind reference 2, and reference 3 holds the tracking set.
\<close>

definition demo_store :: store where
  "demo_store = [0 \<mapsto> PhotoObj photo_c, 1 \<mapsto> PhotoObj photo_a, 2 \<mapsto> ListObj [0, 1],
                 3 \<mapsto> SetObj {|''7.jpg''|}]"

section \<open>Evaluation of the concrete runs\<close>

lemmas size_defs = get_largest_photo_size_def url_and_type_def total_pixels_def
  get_width_def get_height_def

lemmas name_defs = generate_filename_def base_filename_def same_likes_photos_def
  likes_count_def get_id_def get_date_def filename_loop.simps retry_name_def show_int_def
  show_nat.simps digit_char_def

lemmas client_defs = send_def raise_for_status_def check_vk_token_validity_def
  get_profile_photos_def check_yandex_disk_availability_def check_folder_exists_def
  create_yandex_folder_def upload_photo_to_yandex_def folder_present_def

lemmas run_defs = backup_photos_def process_photo_def save_photos_info_def failed_def
  get_max_size_def sort_photos_def Let_def

lemmas demo_defs = variant_def demo_strftime_def photo_a_def photo_b_def photo_c_def
  photo_d_def photo_e_def photo_without_sizes_def photo_negative_def five_photos_def demo_env_def
  fresh_world_def one_transport_fault_def always_def racing_env_def

section \<open>Properties of the size selector\<close>







section \<open>Properties of the filename allocator\<close>

subsection \<open>Decimal text is injective\<close>

lemma digit_char_inj:
  assumes "a < 10" "b < 10" "digit_char a = digit_char b"
  shows "a = b"
proof -
  have d: "distinct ''0123456789''" by simp
  have l: "length ''0123456789'' = 10" by simp
  from assms show ?thesis
    unfolding digit_char_def using d l nth_eq_iff_index_eq by metis
qed

lemma show_nat_length: "(length (show_nat n) = 1) = (n < 10)"
proof (cases "n < 10")
  case True
  then show ?thesis by (simp add: show_nat.simps [of n])
next
  case False
  have "show_nat (n div 10) \<noteq> []"
    by (subst show_nat.simps) simp
  with False show ?thesis by (simp add: show_nat.simps [of n])
qed

lemma show_nat_inj: "show_nat m = show_nat n \<Longrightarrow> m = n"
proof (induction m arbitrary: n rule: show_nat.induct)
  case (1 m)
  show ?case
  proof (cases "m < 10")
    case True
    with "1.prems" have "n < 10" using show_nat_length [of m] show_nat_length [of n] by simp
    with True "1.prems" show ?thesis
      by (simp add: show_nat.simps [of m] show_nat.simps [of n] digit_char_inj)
  next
    case False
    with "1.prems" have n: "\<not> n < 10" using show_nat_length [of m] show_nat_length [of n] by simp
    from "1.prems" False n
    have e: "show_nat (m div 10) @ [digit_char (m mod 10)] = show_nat (n div 10) @ [digit_char (n mod 10)]"
      by (simp add: show_nat.simps [of m] show_nat.simps [of n])
    then have a: "show_nat (m div 10) = show_nat (n div 10)"
      and b: "digit_char (m mod 10) = digit_char (n mod 10)" by simp_all
    from "1.IH" [OF False a] have "m div 10 = n div 10" .
    moreover from b have "m mod 10 = n mod 10" by (intro digit_char_inj) simp_all
    ultimately show ?thesis by (metis div_mult_mod_eq)
  qed
qed

lemma retry_name_inj: "retry_name base pid c = retry_name base pid d \<Longrightarrow> c = d"
  by (auto simp: retry_name_def split: if_splits dest: show_nat_inj)

lemma free_retry_name: "\<exists>k \<ge> c. retry_name base pid k |\<notin>| used"
proof (rule ccontr)
  assume "\<not> ?thesis"
  then have "retry_name base pid ` {c..} \<subseteq> fset used" by auto
  then have "finite (retry_name base pid ` {c..})" by (rule finite_subset) simp
  moreover have "inj_on (retry_name base pid) {c..}"
    by (rule inj_onI) (rule retry_name_inj)
  ultimately have "finite {c..}" by (rule finite_imageD)
  then show False by (simp add: infinite_Ici)
qed

lemma filename_loop_reaches:
  "retry_name base pid k |\<notin>| used \<Longrightarrow> c \<le> k \<Longrightarrow>
   \<exists>fn. filename_loop base pid used filename c = Some fn \<and> fn |\<notin>| used \<and>
        (fn = filename \<or> (\<exists>j \<ge> c. fn = retry_name base pid j))"
proof (induction "k - c" arbitrary: c filename)
  case 0
  then have kc: "c = k" by simp
  show ?case
  proof (cases "filename |\<in>| used")
    case False
    then show ?thesis by (subst filename_loop.simps) simp
  next
    case True
    have "filename_loop base pid used (retry_name base pid c) (c + 1) = Some (retry_name base pid c)"
      using 0 kc by (subst filename_loop.simps) simp
    with True have "filename_loop base pid used filename c = Some (retry_name base pid c)"
      by (subst filename_loop.simps) simp
    with "0.prems" kc show ?thesis by auto
  qed
next
  case (Suc d)
  show ?case
  proof (cases "filename |\<in>| used")
    case False
    then show ?thesis by (subst filename_loop.simps) simp
  next
    case True
    from Suc have "d = k - (c + 1)" "c + 1 \<le> k" by simp_all
    from Suc.hyps(1) [OF this(1) Suc.prems(1) this(2), of "retry_name base pid c"]
    obtain fn where fn: "filename_loop base pid used (retry_name base pid c) (c + 1) = Some fn"
      "fn |\<notin>| used" "fn = retry_name base pid c \<or> (\<exists>j \<ge> c + 1. fn = retry_name base pid j)"
      by blast
    from True fn(1) have "filename_loop base pid used filename c = Some fn"
      by (subst filename_loop.simps) simp
    moreover from fn(3) have "\<exists>j \<ge> c. fn = retry_name base pid j"
      by (metis le_refl add_leD1)
    ultimately show ?thesis using fn(2) by blast
  qed
qed

lemma filename_loop_returns:
  "\<exists>fn. filename_loop base pid used filename c = Some fn \<and> fn |\<notin>| used \<and>
        (fn = filename \<or> (\<exists>j \<ge> c. fn = retry_name base pid j))"
  using free_retry_name [of c base pid used] filename_loop_reaches by blast

lemma retry_name_suffix: "suffix ''.jpg'' (retry_name base pid c)"
  by (simp add: retry_name_def suffix_def)

lemma retry_name_prefix: "prefix base (retry_name base pid c)"
  by (simp add: retry_name_def)

lemma generate_filename_cases:
  "(\<exists>base fn. base_filename sd p photos = Inr base \<and>
      generate_filename sd p photos used = Some (Inr (fn, finsert fn used)) \<and>
      fn |\<notin>| used \<and> suffix ''.jpg'' fn \<and> prefix base fn) \<or>
   (base_filename sd p photos = Inl DateError \<and>
      generate_filename sd p photos used = Some (Inl DateError) \<and>
      sd (get_date p) = None)"
proof (cases "base_filename sd p photos")
  case (Inl e)
  then have "e = DateError \<and> sd (get_date p) = None"
    by (auto simp: base_filename_def split: if_splits option.splits)
  with Inl show ?thesis by (simp add: generate_filename_def)
next
  case (Inr base)
  from filename_loop_returns [of base "get_id p" used "base @ ''.jpg''" 1]
  obtain fn where fn: "filename_loop base (get_id p) used (base @ ''.jpg'') 1 = Some fn"
    "fn |\<notin>| used" "fn = base @ ''.jpg'' \<or> (\<exists>j \<ge> 1. fn = retry_name base (get_id p) j)"
    by blast
  from fn(3) have "suffix ''.jpg'' fn \<and> prefix base fn"
    using retry_name_suffix retry_name_prefix by (auto simp: suffix_def)
  with Inr fn(1,2) show ?thesis by (simp add: generate_filename_def)
qed

lemma allocate_run_general:
  "\<exists>names used'. allocate_run sd ps photos used = Some (names, used') \<and>
      distinct names \<and> (\<forall>n \<in> set names. n |\<notin>| used \<and> suffix ''.jpg'' n) \<and>
      fset used' = fset used \<union> set names"
proof (induction ps arbitrary: used)
  case Nil
  show ?case by simp
next
  case (Cons p ps)
  from generate_filename_cases [of sd p photos used]
  show ?case
  proof
    assume "\<exists>base fn. base_filename sd p photos = Inr base \<and>
      generate_filename sd p photos used = Some (Inr (fn, finsert fn used)) \<and>
      fn |\<notin>| used \<and> suffix ''.jpg'' fn \<and> prefix base fn"
    then obtain fn where fn: "generate_filename sd p photos used = Some (Inr (fn, finsert fn used))"
      "fn |\<notin>| used" "suffix ''.jpg'' fn" by blast
    from Cons.IH [of "finsert fn used"]
    obtain names u where r: "allocate_run sd ps photos (finsert fn used) = Some (names, u)"
      "distinct names" "\<forall>n \<in> set names. n |\<notin>| finsert fn used \<and> suffix ''.jpg'' n"
      "fset u = fset (finsert fn used) \<union> set names" by blast
    from fn(1) r(1) have "allocate_run sd (p # ps) photos used = Some (fn # names, u)"
      by simp
    moreover from r(2,3) have "distinct (fn # names)" by auto
    moreover from r(3) fn(2,3) have "\<forall>n \<in> set (fn # names). n |\<notin>| used \<and> suffix ''.jpg'' n"
      by auto
    moreover from r(4) have "fset u = fset used \<union> set (fn # names)" by auto
    ultimately show ?thesis by blast
  next
    assume "base_filename sd p photos = Inl DateError \<and>
      generate_filename sd p photos used = Some (Inl DateError) \<and> sd (get_date p) = None"
    then have "allocate_run sd (p # ps) photos used = allocate_run sd ps photos used" by simp
    with Cons.IH [of used] show ?thesis by simp
  qed
qed

lemma two_same_likes:
  assumes "p \<in> set photos" "q \<in> set photos" "p \<noteq> q" "likes_count p = likes_count q"
  shows "length (same_likes_photos photos (likes_count p)) > 1"
proof -
  let ?f = "same_likes_photos photos (likes_count p)"
  from assms have "{p, q} \<subseteq> set ?f" by (auto simp: same_likes_photos_def)
  then have "card {p, q} \<le> card (set ?f)" by (intro card_mono) simp_all
  with assms(3) have "2 \<le> card (set ?f)" by simp
  also have "\<dots> \<le> length ?f" by (rule card_length)
  finally show ?thesis by simp
qed

text \<open>
  Claim C1. In every run of the allocator, whatever photos are processed in whatever
  order against a tracking set that starts empty, the run returns, the filenames it
  hands out are pairwise distinct, each of them ends with \<open>.jpg\<close>, and the tracking set
  at the end holds exactly these names. Moreover no single call, on any tracking set,
  returns a name that the set already holds.
\<close>

theorem allocate_run_distinct:
  "(\<exists>names used'. allocate_run strftime_date order photos {||} = Some (names, used') \<and>
      distinct names \<and> (\<forall>n \<in> set names. suffix ''.jpg'' n) \<and> fset used' = set names) \<and>
   (\<forall>filename used'. generate_filename strftime_date p photos used = Some (Inr (filename, used'))
      \<longrightarrow> filename |\<notin>| used \<and> suffix ''.jpg'' filename)"
proof
  from allocate_run_general [of strftime_date order photos "{||}"]
  show "\<exists>names used'. allocate_run strftime_date order photos {||} = Some (names, used') \<and>
      distinct names \<and> (\<forall>n \<in> set names. suffix ''.jpg'' n) \<and> fset used' = set names"
    by auto
next
  from generate_filename_cases [of strftime_date p photos used]
  show "\<forall>filename used'. generate_filename strftime_date p photos used = Some (Inr (filename, used'))
      \<longrightarrow> filename |\<notin>| used \<and> suffix ''.jpg'' filename"
    by auto
qed

theorem allocate_run_distinct_witness:
  "allocate_run demo_strftime [photo_a, photo_b, photo_a, photo_a, photo_a]
       [photo_a, photo_b] {||} =
     Some ([''5_1970-01-01.jpg'', ''5_1970-01-02.jpg'', ''5_1970-01-01_101.jpg'',
            ''5_1970-01-01_101_2.jpg'', ''5_1970-01-01_101_3.jpg''],
           {|''5_1970-01-01_101_3.jpg'', ''5_1970-01-01_101_2.jpg'',
             ''5_1970-01-01_101.jpg'', ''5_1970-01-02.jpg'', ''5_1970-01-01.jpg''|}) \<and>
   distinct [''5_1970-01-01.jpg'', ''5_1970-01-02.jpg'', ''5_1970-01-01_101.jpg'',
             ''5_1970-01-01_101_2.jpg'', ''5_1970-01-01_101_3.jpg''] \<and>
   list_all (suffix ''.jpg'')
     [''5_1970-01-01.jpg'', ''5_1970-01-02.jpg'', ''5_1970-01-01_101.jpg'',
      ''5_1970-01-01_101_2.jpg'', ''5_1970-01-01_101_3.jpg''] \<and>
   generate_filename demo_strftime photo_a [photo_a, photo_b] {|''5_1970-01-01.jpg''|} =
     Some (Inr (''5_1970-01-01_101.jpg'', {|''5_1970-01-01_101.jpg'', ''5_1970-01-01.jpg''|})) \<and>
   ''5_1970-01-01_101.jpg'' |\<notin>| {|''5_1970-01-01.jpg''|} \<and>
   suffix ''.jpg'' ''5_1970-01-01_101.jpg''"
proof -
  have run: "allocate_run demo_strftime [photo_a, photo_b, photo_a, photo_a, photo_a]
       [photo_a, photo_b] {||} =
     Some ([''5_1970-01-01.jpg'', ''5_1970-01-02.jpg'', ''5_1970-01-01_101.jpg'',
            ''5_1970-01-01_101_2.jpg'', ''5_1970-01-01_101_3.jpg''],
           {|''5_1970-01-01_101_3.jpg'', ''5_1970-01-01_101_2.jpg'',
             ''5_1970-01-01_101.jpg'', ''5_1970-01-02.jpg'', ''5_1970-01-01.jpg''|})"
    by (simp add: name_defs demo_defs)
  have call: "generate_filename demo_strftime photo_a [photo_a, photo_b] {|''5_1970-01-01.jpg''|} =
     Some (Inr (''5_1970-01-01_101.jpg'', {|''5_1970-01-01_101.jpg'', ''5_1970-01-01.jpg''|}))"
    by (simp add: name_defs demo_defs)
  from allocate_run_distinct [of demo_strftime "[photo_a, photo_b, photo_a, photo_a, photo_a]"
      "[photo_a, photo_b]" photo_a "{|''5_1970-01-01.jpg''|}"] run call
  show ?thesis by simp
qed

text \<open>
  Claim C7. Let two photos of the photo list of a run have the same popularity count and
  different capture dates. Then a call for the first one, on any tracking set, returns a
  filename that starts with the count, an underscore and the capture date of that photo;
  and a call for the second one at any later point of the run (on any tracking set that
  contains the set left by the first call) returns a filename that starts with the count,
  an underscore and the capture date of the second photo, and differs from the first
  filename.
\<close>

theorem same_likes_date_appended:
  assumes "p \<in> set photos" and "q \<in> set photos"
    and "likes_count p = likes_count q"
    and "get_date p \<noteq> get_date q"
    and "strftime_date (get_date p) = Some dp"
    and "strftime_date (get_date q) = Some dq"
  shows "\<exists>fp. generate_filename strftime_date p photos used = Some (Inr (fp, finsert fp used)) \<and>
           prefix (show_int (likes_count p) @ ''_'' @ dp) fp \<and>
           (\<forall>later. finsert fp used |\<subseteq>| later \<longrightarrow>
              (\<exists>fq. generate_filename strftime_date q photos later
                      = Some (Inr (fq, finsert fq later)) \<and>
                    prefix (show_int (likes_count q) @ ''_'' @ dq) fq \<and> fq \<noteq> fp))"
proof -
  from assms(4) have ne: "p \<noteq> q" by auto
  from two_same_likes [OF assms(1,2) ne assms(3)] assms(5)
  have bp: "base_filename strftime_date p photos = Inr (show_int (likes_count p) @ ''_'' @ dp)"
    by (simp add: base_filename_def)
  from two_same_likes [OF assms(2,1) ne [symmetric] assms(3) [symmetric]] assms(6)
  have bq: "base_filename strftime_date q photos = Inr (show_int (likes_count q) @ ''_'' @ dq)"
    by (simp add: base_filename_def)
  from generate_filename_cases [of strftime_date p photos used] bp
  obtain fp where fp: "generate_filename strftime_date p photos used = Some (Inr (fp, finsert fp used))"
    "prefix (show_int (likes_count p) @ ''_'' @ dp) fp" by auto
  have "\<exists>fq. generate_filename strftime_date q photos later = Some (Inr (fq, finsert fq later)) \<and>
          prefix (show_int (likes_count q) @ ''_'' @ dq) fq \<and> fq \<noteq> fp"
    if sub: "finsert fp used |\<subseteq>| later" for later
  proof -
    from generate_filename_cases [of strftime_date q photos later] bq
    obtain fq where fq: "generate_filename strftime_date q photos later = Some (Inr (fq, finsert fq later))"
      "fq |\<notin>| later" "prefix (show_int (likes_count q) @ ''_'' @ dq) fq" by auto
    from sub fq(2) have "fq \<noteq> fp" by auto
    with fq show ?thesis by blast
  qed
  with fp show ?thesis by blast
qed

theorem same_likes_date_appended_witness:
  "photo_a \<in> set [photo_a, photo_b] \<and> photo_b \<in> set [photo_a, photo_b] \<and>
   likes_count photo_a = likes_count photo_b \<and>
   get_date photo_a \<noteq> get_date photo_b \<and>
   demo_strftime (get_date photo_a) = Some ''1970-01-01'' \<and>
   demo_strftime (get_date photo_b) = Some ''1970-01-02'' \<and>
   generate_filename demo_strftime photo_a [photo_a, photo_b] {||} =
     Some (Inr (''5_1970-01-01.jpg'', {|''5_1970-01-01.jpg''|})) \<and>
   generate_filename demo_strftime photo_b [photo_a, photo_b] {|''5_1970-01-01.jpg''|} =
     Some (Inr (''5_1970-01-02.jpg'', {|''5_1970-01-02.jpg'', ''5_1970-01-01.jpg''|})) \<and>
   (\<exists>fp. generate_filename demo_strftime photo_a [photo_a, photo_b] {||} =
            Some (Inr (fp, finsert fp {||})) \<and>
         prefix (show_int (likes_count photo_a) @ ''_'' @ ''1970-01-01'') fp \<and>
         (\<forall>later. finsert fp {||} |\<subseteq>| later \<longrightarrow>
            (\<exists>fq. generate_filename demo_strftime photo_b [photo_a, photo_b] later =
                    Some (Inr (fq, finsert fq later)) \<and>
                  prefix (show_int (likes_count photo_b) @ ''_'' @ ''1970-01-02'') fq \<and>
                  fq \<noteq> fp)))"
proof -
  have h1: "photo_a \<in> set [photo_a, photo_b]" and h2: "photo_b \<in> set [photo_a, photo_b]"
    by simp_all
  have h3: "likes_count photo_a = likes_count photo_b"
    by (simp add: likes_count_def demo_defs)
  have h4: "get_date photo_a \<noteq> get_date photo_b"
    by (simp add: get_date_def demo_defs)
  have h5: "demo_strftime (get_date photo_a) = Some ''1970-01-01''"
    by (simp add: get_date_def demo_defs)
  have h6: "demo_strftime (get_date photo_b) = Some ''1970-01-02''"
    by (simp add: get_date_def demo_defs)
  have c1: "generate_filename demo_strftime photo_a [photo_a, photo_b] {||} =
     Some (Inr (''5_1970-01-01.jpg'', {|''5_1970-01-01.jpg''|}))"
    by (simp add: name_defs demo_defs)
  have c2: "generate_filename demo_strftime photo_b [photo_a, photo_b] {|''5_1970-01-01.jpg''|} =
     Some (Inr (''5_1970-01-02.jpg'', {|''5_1970-01-02.jpg'', ''5_1970-01-01.jpg''|}))"
    by (simp add: name_defs demo_defs)
  note same_likes_date_appended [OF h1 h2 h3 h4 h5 h6, of "{||}"]
  with h1 h2 h3 h4 h5 h6 c1 c2 show ?thesis by blast
qed

text \<open>
  Claim C9. The retry loop of \<open>generate_filename\<close> returns from every state: for any
  base name, photo identifier, tracking set (a finite set), candidate filename and
  counter it yields a name that is not in the tracking set. Hence \<open>generate_filename\<close>
  terminates on every photo, photo list and tracking set: it returns a filename that
  was not in the tracking set, together with the set extended by it, unless the date
  formatting of the standard library raised before the loop was entered.
\<close>

theorem generate_filename_terminates:
  "(\<exists>filename'. filename_loop base pid used filename counter = Some filename' \<and>
      filename' |\<notin>| used) \<and>
   ((\<exists>name. generate_filename strftime_date p photos used = Some (Inr (name, finsert name used)) \<and>
       name |\<notin>| used) \<or>
    (generate_filename strftime_date p photos used = Some (Inl DateError) \<and>
       strftime_date (get_date p) = None))"
  using filename_loop_returns [of base pid used filename counter]
    generate_filename_cases [of strftime_date p photos used]
  by blast

theorem generate_filename_terminates_witness:
  "filename_loop ''7'' 103 {|''7.jpg'', ''7_103.jpg'', ''7_103_2.jpg''|} ''7.jpg'' 1 =
     Some ''7_103_3.jpg'' \<and>
   (\<exists>filename'. filename_loop ''7'' 103 {|''7.jpg'', ''7_103.jpg'', ''7_103_2.jpg''|} ''7.jpg'' 1 =
       Some filename' \<and>
       filename' |\<notin>| {|''7.jpg'', ''7_103.jpg'', ''7_103_2.jpg''|}) \<and>
   generate_filename demo_strftime photo_c five_photos
       {|''7.jpg'', ''7_103.jpg'', ''7_103_2.jpg''|} =
     Some (Inr (''7_103_3.jpg'', {|''7_103_3.jpg'', ''7.jpg'', ''7_103.jpg'', ''7_103_2.jpg''|}))"
proof -
  have l: "filename_loop ''7'' 103 {|''7.jpg'', ''7_103.jpg'', ''7_103_2.jpg''|} ''7.jpg'' 1 =
     Some ''7_103_3.jpg''"
    by (simp add: name_defs)
  have g: "generate_filename demo_strftime photo_c five_photos
       {|''7.jpg'', ''7_103.jpg'', ''7_103_2.jpg''|} =
     Some (Inr (''7_103_3.jpg'', {|''7_103_3.jpg'', ''7.jpg'', ''7_103.jpg'', ''7_103_2.jpg''|}))"
    by (simp add: name_defs demo_defs)
  from generate_filename_terminates [of "''7''" 103 "{|''7.jpg'', ''7_103.jpg'', ''7_103_2.jpg''|}"
      "''7.jpg''" 1 demo_strftime photo_c five_photos] l g
  show ?thesis by blast
qed

subsection \<open>The allocator on the store\<close>

lemma filename_loop_store_reaches:
  "h used_ref = Some (SetObj s) \<Longrightarrow> retry_name base pid k |\<notin>| s \<Longrightarrow> c \<le> k \<Longrightarrow>
   \<exists>fn. filename_loop base pid s filename c = Some fn \<and>
        filename_loop_store h used_ref base pid filename c = Some (Inr fn, h)"
proof (induction "k - c" arbitrary: c filename)
  case 0
  then have kc: "c = k" by simp
  show ?case
  proof (cases "filename |\<in>| s")
    case False
    then have "filename_loop base pid s filename c = Some filename"
      by (subst filename_loop.simps) simp
    moreover from False "0.prems"(1)
    have "filename_loop_store h used_ref base pid filename c = Some (Inr filename, h)"
      by (subst filename_loop_store.simps) simp
    ultimately show ?thesis by blast
  next
    case True
    from "0.prems" kc
    have 1: "filename_loop base pid s (retry_name base pid c) (c + 1) = Some (retry_name base pid c)"
      by (subst filename_loop.simps) simp
    from "0.prems" kc
    have 2: "filename_loop_store h used_ref base pid (retry_name base pid c) (c + 1) =
        Some (Inr (retry_name base pid c), h)"
      by (subst filename_loop_store.simps) simp
    from True 1 have "filename_loop base pid s filename c = Some (retry_name base pid c)"
      by (subst filename_loop.simps) simp
    moreover from True 2 "0.prems"(1)
    have "filename_loop_store h used_ref base pid filename c = Some (Inr (retry_name base pid c), h)"
      by (subst filename_loop_store.simps) simp
    ultimately show ?thesis by blast
  qed
next
  case (Suc d)
  show ?case
  proof (cases "filename |\<in>| s")
    case False
    then have "filename_loop base pid s filename c = Some filename"
      by (subst filename_loop.simps) simp
    moreover from False Suc.prems(1)
    have "filename_loop_store h used_ref base pid filename c = Some (Inr filename, h)"
      by (subst filename_loop_store.simps) simp
    ultimately show ?thesis by blast
  next
    case True
    from Suc have "d = k - (c + 1)" "c + 1 \<le> k" by simp_all
    from Suc.hyps(1) [OF this(1) Suc.prems(1,2) this(2), of "retry_name base pid c"]
    obtain fn where fn: "filename_loop base pid s (retry_name base pid c) (c + 1) = Some fn"
      "filename_loop_store h used_ref base pid (retry_name base pid c) (c + 1) = Some (Inr fn, h)"
      by blast
    from True fn(1) have "filename_loop base pid s filename c = Some fn"
      by (subst filename_loop.simps) simp
    moreover from True fn(2) Suc.prems(1)
    have "filename_loop_store h used_ref base pid filename c = Some (Inr fn, h)"
      by (subst filename_loop_store.simps) simp
    ultimately show ?thesis by blast
  qed
qed

lemma filename_loop_store_returns:
  assumes "h used_ref = Some (SetObj s)"
  shows "\<exists>fn. filename_loop base pid s filename c = Some fn \<and> fn |\<notin>| s \<and>
        filename_loop_store h used_ref base pid filename c = Some (Inr fn, h)"
proof -
  from free_retry_name [of c base pid s] obtain k where "c \<le> k" "retry_name base pid k |\<notin>| s"
    by blast
  from filename_loop_store_reaches [where h = h and used_ref = used_ref and s = s and filename = filename,
      OF assms this(2,1)]
  obtain fn where fn: "filename_loop base pid s filename c = Some fn"
    "filename_loop_store h used_ref base pid filename c = Some (Inr fn, h)" by blast
  from filename_loop_returns [of base pid s filename c] fn(1) have "fn |\<notin>| s" by auto
  with fn show ?thesis by blast
qed

lemma filename_loop_store_no_set:
  assumes "\<forall>s. h used_ref \<noteq> Some (SetObj s)"
  shows "filename_loop_store h used_ref base pid filename c = Some (Inl TypeError, h)"
  using assms by (subst filename_loop_store.simps) (auto split: option.splits obj.splits)

lemma read_photos_refs:
  "read_photos h items = Some photos \<Longrightarrow> a \<in> set items \<Longrightarrow> \<exists>p. h a = Some (PhotoObj p)"
  by (induction items arbitrary: photos) (auto split: option.splits obj.splits)

text \<open>
  Claim C10. On a store of objects, \<open>generate_filename\<close> returns from every store and
  every three references, and the store it leaves behind differs from the one it was
  given at most in the object behind the tracking-set reference: every other object is
  the same, in particular the photo record, the list object and every photo record the
  list refers to. When the call raises, the whole store is unchanged. When it returns a
  filename, the tracking set held the set \<open>used\<close>, did not contain the filename, and
  the store after the call is the store before it with the tracking set replaced by
  \<open>used\<close> plus the filename: exactly one insertion. Filename and set are those that
  \<open>generate_filename\<close> computes on the values read from the store.
\<close>

theorem generate_filename_store_frame:
  "\<exists>r h'. generate_filename_store strftime_date h photo_ref photos_ref used_ref = Some (r, h') \<and>
     (\<forall>a. a \<noteq> used_ref \<longrightarrow> h' a = h a) \<and>
     h' photo_ref = h photo_ref \<and> h' photos_ref = h photos_ref \<and>
     (\<forall>items a. h photos_ref = Some (ListObj items) \<and> a \<in> set items \<longrightarrow> h' a = h a) \<and>
     (case r of
        Inl e \<Rightarrow> h' = h
      | Inr filename \<Rightarrow>
          (\<exists>p items photos used.
             h photo_ref = Some (PhotoObj p) \<and> h photos_ref = Some (ListObj items) \<and>
             read_photos h items = Some photos \<and> h used_ref = Some (SetObj used) \<and>
             generate_filename strftime_date p photos used =
               Some (Inr (filename, finsert filename used)) \<and>
             filename |\<notin>| used \<and>
             h' = h(used_ref \<mapsto> SetObj (finsert filename used))))"
proof -
  let ?g = "generate_filename_store strftime_date h photo_ref photos_ref used_ref"
  have err: ?thesis if "?g = Some (Inl e, h)" for e
    using that by simp
  show ?thesis
  proof (cases "h photo_ref")
    case None
    then have "?g = Some (Inl TypeError, h)" by (simp add: generate_filename_store_def)
    then show ?thesis by (rule err)
  next
    case (Some o1)
    show ?thesis
    proof (cases "\<exists>p. o1 = PhotoObj p")
      case False
      with Some have "?g = Some (Inl TypeError, h)"
        by (cases o1) (simp_all add: generate_filename_store_def)
      then show ?thesis by (rule err)
    next
      case True
      then obtain p where p: "h photo_ref = Some (PhotoObj p)" using Some by blast
      show ?thesis
      proof (cases "\<exists>items photos. h photos_ref = Some (ListObj items) \<and>
                      read_photos h items = Some photos")
        case False
        with p have "?g = Some (Inl TypeError, h)"
          by (auto simp: generate_filename_store_def split: option.splits obj.splits)
        then show ?thesis by (rule err)
      next
        case True
        then obtain items photos where l: "h photos_ref = Some (ListObj items)"
          "read_photos h items = Some photos" by blast
        show ?thesis
        proof (cases "base_filename strftime_date p photos")
          case (Inl e)
          with p l have "?g = Some (Inl e, h)" by (simp add: generate_filename_store_def)
          then show ?thesis by (rule err)
        next
          case (Inr base)
          show ?thesis
          proof (cases "\<exists>used. h used_ref = Some (SetObj used)")
            case False
            then have "filename_loop_store h used_ref base (get_id p) (base @ ''.jpg'') 1 =
                Some (Inl TypeError, h)"
              by (intro filename_loop_store_no_set) simp
            with p l Inr have "?g = Some (Inl TypeError, h)"
              by (simp add: generate_filename_store_def)
            then show ?thesis by (rule err)
          next
            case True
            then obtain used where u: "h used_ref = Some (SetObj used)" by blast
            from filename_loop_store_returns [where h = h and used_ref = used_ref and s = used
                and base = base and pid = "get_id p" and filename = "base @ ''.jpg''" and c = 1, OF u]
            obtain fn where fn:
              "filename_loop base (get_id p) used (base @ ''.jpg'') 1 = Some fn"
              "fn |\<notin>| used"
              "filename_loop_store h used_ref base (get_id p) (base @ ''.jpg'') 1 = Some (Inr fn, h)"
              by blast
            let ?h' = "h(used_ref \<mapsto> SetObj (finsert fn used))"
            from p l Inr fn(3) u have g: "?g = Some (Inr fn, ?h')"
              by (simp add: generate_filename_store_def)
            from Inr fn(1) have v: "generate_filename strftime_date p photos used =
                Some (Inr (fn, finsert fn used))"
              by (simp add: generate_filename_def)
            from p u have n1: "photo_ref \<noteq> used_ref" by auto
            from l(1) u have n2: "photos_ref \<noteq> used_ref" by auto
            have n3: "a \<noteq> used_ref" if "a \<in> set items" for a
              using read_photos_refs [OF l(2) that] u by auto
            from n1 have f1: "?h' photo_ref = h photo_ref" by simp
            from n2 have f2: "?h' photos_ref = h photos_ref" by simp
            have f3: "\<forall>items' a. h photos_ref = Some (ListObj items') \<and> a \<in> set items' \<longrightarrow>
                ?h' a = h a"
              using l(1) n3 by auto
            have f0: "\<forall>a. a \<noteq> used_ref \<longrightarrow> ?h' a = h a" by simp
            from p l u v fn(2)
            have f4: "\<exists>p items photos used.
               h photo_ref = Some (PhotoObj p) \<and> h photos_ref = Some (ListObj items) \<and>
               read_photos h items = Some photos \<and> h used_ref = Some (SetObj used) \<and>
               generate_filename strftime_date p photos used =
                 Some (Inr (fn, finsert fn used)) \<and>
               fn |\<notin>| used \<and>
               ?h' = h(used_ref \<mapsto> SetObj (finsert fn used))"
              by blast
            from g f0 f1 f2 f3 f4 show ?thesis
              by (intro exI [of _ "Inr fn"] exI [of _ ?h']) simp
          qed
        qed
      qed
    qed
  qed
qed

theorem generate_filename_store_frame_witness:
  "generate_filename_store demo_strftime demo_store 0 2 3 =
     Some (Inr ''7_103.jpg'', demo_store(3 \<mapsto> SetObj {|''7_103.jpg'', ''7.jpg''|})) \<and>
   demo_store 0 = Some (PhotoObj photo_c) \<and>
   demo_store 1 = Some (PhotoObj photo_a) \<and>
   demo_store 2 = Some (ListObj [0, 1]) \<and>
   demo_store 3 = Some (SetObj {|''7.jpg''|}) \<and>
   (demo_store(3 \<mapsto> SetObj {|''7_103.jpg'', ''7.jpg''|})) 0 = Some (PhotoObj photo_c) \<and>
   (demo_store(3 \<mapsto> SetObj {|''7_103.jpg'', ''7.jpg''|})) 1 = Some (PhotoObj photo_a) \<and>
   (demo_store(3 \<mapsto> SetObj {|''7_103.jpg'', ''7.jpg''|})) 2 = Some (ListObj [0, 1]) \<and>
   (demo_store(3 \<mapsto> SetObj {|''7_103.jpg'', ''7.jpg''|})) 3 =
     Some (SetObj (finsert ''7_103.jpg'' {|''7.jpg''|})) \<and>
   ''7_103.jpg'' |\<notin>| {|''7.jpg''|}"
proof -
  let ?h' = "demo_store(3 \<mapsto> SetObj {|''7_103.jpg'', ''7.jpg''|})"
  have s0: "demo_store 0 = Some (PhotoObj photo_c)" and s1: "demo_store 1 = Some (PhotoObj photo_a)"
    and s2: "demo_store 2 = Some (ListObj [0, 1])"
    and s3: "demo_store 3 = Some (SetObj {|''7.jpg''|})"
    by (simp_all add: demo_store_def)
  have l: "filename_loop_store demo_store 3 ''7'' 103 ''7.jpg'' 1 = Some (Inr ''7_103.jpg'', demo_store)"
    using s3 by (simp add: filename_loop_store.simps retry_name_def show_int_def
        show_nat.simps digit_char_def)
  have b: "base_filename demo_strftime photo_c [photo_c, photo_a] = Inr ''7''"
    by (simp add: name_defs demo_defs)
  have g: "generate_filename_store demo_strftime demo_store 0 2 3 = Some (Inr ''7_103.jpg'', ?h')"
    using s0 s1 s2 s3 l b
    by (simp add: generate_filename_store_def get_id_def photo_c_def)
  from generate_filename_store_frame [of demo_strftime demo_store 0 2 3] g
  have fr: "?h' 0 = demo_store 0 \<and> ?h' 2 = demo_store 2 \<and> (\<forall>a. a \<noteq> 3 \<longrightarrow> ?h' a = demo_store a)"
    by auto
  then have "?h' 1 = demo_store 1" by simp
  with fr s0 s1 s2 s3 g show ?thesis by simp
qed

section \<open>Properties of the destination client\<close>

lemma send_files: "send e w r = (a, w') \<Longrightarrow> files w' = files w"
  by (auto simp: send_def)

lemma check_folder_exists_files: "check_folder_exists e w n = (b, w') \<Longrightarrow> files w' = files w"
  by (auto simp: check_folder_exists_def send_def split: reply.splits)

lemma create_twice_ideal:
  assumes g: "\<forall>hist path. env_answer e hist (DiskGet path) = ideal_disk initial hist (DiskGet path)"
    and p: "\<forall>hist path. env_answer e hist (DiskPut path) = ideal_disk initial hist (DiskPut path)"
  shows "\<exists>w1. create_yandex_folder e w name = (Inr PyTrue, w1) \<and>
           create_yandex_folder e w1 name =
             (Inr PyTrue, w1\<lparr>history := history w1 @ [DiskGet (''/'' @ name)]\<rparr>)"
proof (cases "folder_present initial (history w) (''/'' @ name)")
  case True
  with g have 1: "create_yandex_folder e w name =
      (Inr PyTrue, w\<lparr>history := history w @ [DiskGet (''/'' @ name)]\<rparr>)"
    by (simp add: create_yandex_folder_def check_folder_exists_def send_def)
  from True have "folder_present initial (history w @ [DiskGet (''/'' @ name)]) (''/'' @ name)"
    by (auto simp: folder_present_def)
  with g have "create_yandex_folder e (w\<lparr>history := history w @ [DiskGet (''/'' @ name)]\<rparr>) name =
      (Inr PyTrue, w\<lparr>history := history w @ [DiskGet (''/'' @ name)]\<rparr>
         \<lparr>history := history (w\<lparr>history := history w @ [DiskGet (''/'' @ name)]\<rparr>) @ [DiskGet (''/'' @ name)]\<rparr>)"
    by (simp add: create_yandex_folder_def check_folder_exists_def send_def)
  with 1 show ?thesis by simp
next
  case False
  then have "\<not> folder_present initial (history w @ [DiskGet (''/'' @ name)]) (''/'' @ name)"
    by (auto simp: folder_present_def)
  with False g p have 1: "create_yandex_folder e w name =
      (Inr PyTrue, w\<lparr>history := history w @ [DiskGet (''/'' @ name), DiskPut (''/'' @ name)]\<rparr>)"
    by (simp add: create_yandex_folder_def check_folder_exists_def send_def)
  have "folder_present initial (history w @ [DiskGet (''/'' @ name), DiskPut (''/'' @ name)]) (''/'' @ name)"
    by (auto simp: folder_present_def)
  with g have "create_yandex_folder e (w\<lparr>history := history w @ [DiskGet (''/'' @ name), DiskPut (''/'' @ name)]\<rparr>) name =
      (Inr PyTrue, w\<lparr>history := history w @ [DiskGet (''/'' @ name), DiskPut (''/'' @ name)]\<rparr>
         \<lparr>history := history (w\<lparr>history := history w @ [DiskGet (''/'' @ name), DiskPut (''/'' @ name)]\<rparr>) @ [DiskGet (''/'' @ name)]\<rparr>)"
    by (simp add: create_yandex_folder_def check_folder_exists_def send_def)
  with 1 show ?thesis by simp
qed

lemma create_conflict_ok:
  assumes "\<forall>hist. \<exists>body. env_answer e hist (DiskPut (''/'' @ name)) = Http 201 body \<or>
                         env_answer e hist (DiskPut (''/'' @ name)) = Http 409 body"
  shows "\<exists>w1. create_yandex_folder e w name = (Inr PyTrue, w1)"
proof -
  obtain b w1 where c: "check_folder_exists e w name = (b, w1)" by (cases "check_folder_exists e w name")
  from assms obtain body where "env_answer e (history w1) (DiskPut (''/'' @ name)) = Http 201 body \<or>
                         env_answer e (history w1) (DiskPut (''/'' @ name)) = Http 409 body" by blast
  with c show ?thesis
    by (cases b) (auto simp: create_yandex_folder_def send_def)
qed

text \<open>
  Claim C8. \<open>create_yandex_folder\<close> is idempotent. It asks for the folder first, and when
  the service answers that the folder exists (status 200) it returns \<open>True\<close> having sent
  no creation request. When the check does not find the folder it sends the creation
  request, and both the answer 201 and the answer 409 ("already exists", also after a
  check that said otherwise) make it return \<open>True\<close>. Against a storage service that
  keeps folders as \<open>ideal_disk\<close> does, two calls in sequence with the same name both
  return \<open>True\<close>, and the second call sends the existence check only, no second creation
  request. Against any service whose creation request answers 201 or 409, whatever its
  existence check says, two calls in sequence both return \<open>True\<close>.
\<close>

theorem create_yandex_folder_idempotent:
  "(env_answer e (history w) (DiskGet (''/'' @ name)) = Http 200 body \<longrightarrow>
      create_yandex_folder e w name =
        (Inr PyTrue, w\<lparr>history := history w @ [DiskGet (''/'' @ name)]\<rparr>)) \<and>
   (check_folder_exists e w name = (False, w1) \<and>
    env_answer e (history w1) (DiskPut (''/'' @ name)) = Http status body' \<and>
    (status = 201 \<or> status = 409) \<longrightarrow>
      create_yandex_folder e w name =
        (Inr PyTrue, w1\<lparr>history := history w1 @ [DiskPut (''/'' @ name)]\<rparr>)) \<and>
   ((\<forall>hist path. env_answer e hist (DiskGet path) = ideal_disk initial hist (DiskGet path)) \<and>
    (\<forall>hist path. env_answer e hist (DiskPut path) = ideal_disk initial hist (DiskPut path)) \<longrightarrow>
      (\<exists>w'. create_yandex_folder e w name = (Inr PyTrue, w') \<and>
            create_yandex_folder e w' name =
              (Inr PyTrue, w'\<lparr>history := history w' @ [DiskGet (''/'' @ name)]\<rparr>))) \<and>
   ((\<forall>hist. \<exists>b. env_answer e hist (DiskPut (''/'' @ name)) = Http 201 b \<or>
                env_answer e hist (DiskPut (''/'' @ name)) = Http 409 b) \<longrightarrow>
      (\<exists>w' w''. create_yandex_folder e w name = (Inr PyTrue, w') \<and>
                create_yandex_folder e w' name = (Inr PyTrue, w'')))"
proof (intro conjI impI)
  assume "env_answer e (history w) (DiskGet (''/'' @ name)) = Http 200 body"
  then show "create_yandex_folder e w name =
        (Inr PyTrue, w\<lparr>history := history w @ [DiskGet (''/'' @ name)]\<rparr>)"
    by (simp add: create_yandex_folder_def check_folder_exists_def send_def)
next
  assume "check_folder_exists e w name = (False, w1) \<and>
    env_answer e (history w1) (DiskPut (''/'' @ name)) = Http status body' \<and>
    (status = 201 \<or> status = 409)"
  then show "create_yandex_folder e w name =
        (Inr PyTrue, w1\<lparr>history := history w1 @ [DiskPut (''/'' @ name)]\<rparr>)"
    by (auto simp: create_yandex_folder_def send_def)
next
  assume "(\<forall>hist path. env_answer e hist (DiskGet path) = ideal_disk initial hist (DiskGet path)) \<and>
    (\<forall>hist path. env_answer e hist (DiskPut path) = ideal_disk initial hist (DiskPut path))"
  then show "\<exists>w'. create_yandex_folder e w name = (Inr PyTrue, w') \<and>
            create_yandex_folder e w' name =
              (Inr PyTrue, w'\<lparr>history := history w' @ [DiskGet (''/'' @ name)]\<rparr>)"
    using create_twice_ideal [of e initial w name] by blast
next
  assume a: "\<forall>hist. \<exists>b. env_answer e hist (DiskPut (''/'' @ name)) = Http 201 b \<or>
                env_answer e hist (DiskPut (''/'' @ name)) = Http 409 b"
  from create_conflict_ok [OF a, of w] obtain w' where 1: "create_yandex_folder e w name = (Inr PyTrue, w')" by blast
  from create_conflict_ok [OF a, of w'] obtain w'' where "create_yandex_folder e w' name = (Inr PyTrue, w'')" by blast
  with 1 show "\<exists>w' w''. create_yandex_folder e w name = (Inr PyTrue, w') \<and>
                create_yandex_folder e w' name = (Inr PyTrue, w'')" by blast
qed

theorem create_yandex_folder_idempotent_witness:
  "env_answer (demo_env [] (always 202)) [DiskGet ''/F'', DiskPut ''/F''] (DiskGet ''/F'') =
     Http 200 NotJson \<and>
   check_folder_exists (demo_env [] (always 202)) fresh_world ''F'' =
     (False, \<lparr>history = [DiskGet ''/F''], files = []\<rparr>) \<and>
   env_answer (demo_env [] (always 202)) [DiskGet ''/F''] (DiskPut ''/F'') = Http 201 NotJson \<and>
   create_yandex_folder (demo_env [] (always 202)) fresh_world ''F'' =
     (Inr PyTrue, \<lparr>history = [DiskGet ''/F'', DiskPut ''/F''], files = []\<rparr>) \<and>
   create_yandex_folder (demo_env [] (always 202))
       \<lparr>history = [DiskGet ''/F'', DiskPut ''/F''], files = []\<rparr> ''F'' =
     (Inr PyTrue, \<lparr>history = [DiskGet ''/F'', DiskPut ''/F'', DiskGet ''/F''], files = []\<rparr>) \<and>
   create_yandex_folder racing_env fresh_world ''F'' =
     (Inr PyTrue, \<lparr>history = [DiskGet ''/F'', DiskPut ''/F''], files = []\<rparr>) \<and>
   create_yandex_folder racing_env \<lparr>history = [DiskGet ''/F'', DiskPut ''/F''], files = []\<rparr> ''F'' =
     (Inr PyTrue,
      \<lparr>history = [DiskGet ''/F'', DiskPut ''/F'', DiskGet ''/F'', DiskPut ''/F''], files = []\<rparr>) \<and>
   (\<exists>w'. create_yandex_folder (demo_env [] (always 202)) fresh_world ''F'' = (Inr PyTrue, w') \<and>
         create_yandex_folder (demo_env [] (always 202)) w' ''F'' =
           (Inr PyTrue, w'\<lparr>history := history w' @ [DiskGet (''/'' @ ''F'')]\<rparr>)) \<and>
   (\<exists>w' w''. create_yandex_folder racing_env fresh_world ''F'' = (Inr PyTrue, w') \<and>
             create_yandex_folder racing_env w' ''F'' = (Inr PyTrue, w''))"
proof -
  let ?e = "demo_env [] (always 202)"
  let ?w1 = "\<lparr>history = [DiskGet ''/F''], files = []\<rparr>"
  let ?w2 = "\<lparr>history = [DiskGet ''/F'', DiskPut ''/F''], files = []\<rparr>"
  have a: "env_answer ?e (history ?w2) (DiskGet (''/'' @ ''F'')) = Http 200 NotJson"
    by (simp add: demo_defs folder_present_def)
  have b: "check_folder_exists ?e fresh_world ''F'' = (False, ?w1)"
    by (simp add: demo_defs client_defs)
  have c: "env_answer ?e (history ?w1) (DiskPut (''/'' @ ''F'')) = Http 201 NotJson"
    by (simp add: demo_defs folder_present_def)
  have d: "\<forall>hist path. env_answer ?e hist (DiskGet path) = ideal_disk [''/''] hist (DiskGet path)"
    by (simp add: demo_defs)
  have d': "\<forall>hist path. env_answer ?e hist (DiskPut path) = ideal_disk [''/''] hist (DiskPut path)"
    by (simp add: demo_defs)
  have r: "\<forall>hist. \<exists>b. env_answer racing_env hist (DiskPut (''/'' @ ''F'')) = Http 201 b \<or>
                       env_answer racing_env hist (DiskPut (''/'' @ ''F'')) = Http 409 b"
    by (simp add: racing_env_def)
  have r1: "create_yandex_folder racing_env fresh_world ''F'' = (Inr PyTrue, ?w2)"
    by (simp add: demo_defs client_defs)
  have r2: "create_yandex_folder racing_env ?w2 ''F'' =
     (Inr PyTrue,
      \<lparr>history = [DiskGet ''/F'', DiskPut ''/F'', DiskGet ''/F'', DiskPut ''/F''], files = []\<rparr>)"
    by (simp add: demo_defs client_defs)
  from create_yandex_folder_idempotent [of ?e ?w2 "''F''" NotJson _ _ _ "[''/'']"] a d d'
  have e1: "create_yandex_folder ?e ?w2 ''F'' =
      (Inr PyTrue, ?w2\<lparr>history := history ?w2 @ [DiskGet (''/'' @ ''F'')]\<rparr>)"
    by blast
  from create_yandex_folder_idempotent [of ?e fresh_world "''F''" _ ?w1 201 NotJson "[''/'']"] b c d d'
  have e2: "create_yandex_folder ?e fresh_world ''F'' =
      (Inr PyTrue, ?w1\<lparr>history := history ?w1 @ [DiskPut (''/'' @ ''F'')]\<rparr>)"
    by blast
  from create_yandex_folder_idempotent [of ?e fresh_world "''F''" _ _ _ _ "[''/'']"] d d'
  have e3: "\<exists>w'. create_yandex_folder ?e fresh_world ''F'' = (Inr PyTrue, w') \<and>
         create_yandex_folder ?e w' ''F'' =
           (Inr PyTrue, w'\<lparr>history := history w' @ [DiskGet (''/'' @ ''F'')]\<rparr>)"
    by blast
  from create_yandex_folder_idempotent [of racing_env fresh_world "''F''"] r
  have e4: "\<exists>w' w''. create_yandex_folder racing_env fresh_world ''F'' = (Inr PyTrue, w') \<and>
             create_yandex_folder racing_env w' ''F'' = (Inr PyTrue, w'')"
    by blast
  from a b c e1 e2 have "env_answer (demo_env [] (always 202)) [DiskGet ''/F'', DiskPut ''/F''] (DiskGet ''/F'') =
     Http 200 NotJson \<and>
   check_folder_exists (demo_env [] (always 202)) fresh_world ''F'' =
     (False, \<lparr>history = [DiskGet ''/F''], files = []\<rparr>) \<and>
   env_answer (demo_env [] (always 202)) [DiskGet ''/F''] (DiskPut ''/F'') = Http 201 NotJson \<and>
   create_yandex_folder (demo_env [] (always 202)) fresh_world ''F'' =
     (Inr PyTrue, \<lparr>history = [DiskGet ''/F'', DiskPut ''/F''], files = []\<rparr>) \<and>
   create_yandex_folder (demo_env [] (always 202))
       \<lparr>history = [DiskGet ''/F'', DiskPut ''/F''], files = []\<rparr> ''F'' =
     (Inr PyTrue, \<lparr>history = [DiskGet ''/F'', DiskPut ''/F'', DiskGet ''/F''], files = []\<rparr>)"
    by simp
  with r1 r2 e3 e4 show ?thesis by blast
qed

text \<open>
  Claim C3. \<open>upload_photo_to_yandex\<close> is meant to succeed on the status 202 only and to
  raise for every other status. It does not: \<open>raise_for_status\<close> raises for the statuses
  400 to 599 only, so on the status 200 the method raises nothing and returns \<open>None\<close>;
  \<open>backup_photos\<close>, which does not look at the returned value, counts the photo as
  uploaded and lists it in the manifest.
\<close>

theorem upload_photo_to_yandex_status_200:
  "upload_photo_to_yandex (demo_env [photo_b] (always 200)) fresh_world ''b-z'' ''5.jpg'' ''F'' =
     (Inr PyNone, \<lparr>history = [DiskUpload ''/F/5.jpg'' ''b-z''], files = []\<rparr>) \<and>
   backup_photos (demo_env [photo_b] (always 200)) fresh_world ''42'' 1 =
     Some ([(''success'', PyBool True), (''total_photos'', PyInt 1),
            (''uploaded_photos'', PyInt 1),
            (''folder_name'', PyStr ''VK_Photos_42_2024-01-15''),
            (''json_file'', PyStr ''photos_info_42.json''),
            (''photos_info'', PyList [\<lparr>file_name = ''5.jpg'', size_tag = ''z''\<rparr>])],
           \<lparr>history = [VkProfileInfo, DiskGet ''/'', VkPhotosGet ''42'' 1,
                       DiskGet ''/VK_Photos_42_2024-01-15'',
                       DiskPut ''/VK_Photos_42_2024-01-15'',
                       DiskUpload ''/VK_Photos_42_2024-01-15/5.jpg'' ''b-z''],
            files = [(''photos_info_42.json'', [\<lparr>file_name = ''5.jpg'', size_tag = ''z''\<rparr>])]\<rparr>)"
  by (simp add: size_defs name_defs client_defs run_defs demo_defs)

section \<open>Properties of the orchestrator\<close>

subsection \<open>The requests leave the local files alone\<close>

lemma check_vk_token_validity_files:
  "check_vk_token_validity e w = (r, w') \<Longrightarrow> files w' = files w"
  by (auto simp: check_vk_token_validity_def send_def
      split: reply.splits sum.splits json.splits if_splits)

lemma check_yandex_disk_availability_files:
  "check_yandex_disk_availability e w = (r, w') \<Longrightarrow> files w' = files w"
  by (auto simp: check_yandex_disk_availability_def send_def
      split: reply.splits sum.splits if_splits)

lemma get_profile_photos_files:
  "get_profile_photos e w u c = (r, w') \<Longrightarrow> files w' = files w"
  by (auto simp: get_profile_photos_def send_def
      split: reply.splits sum.splits json.splits if_splits)

lemma create_yandex_folder_files:
  "create_yandex_folder e w n = (r, w') \<Longrightarrow> files w' = files w"
  by (auto simp: create_yandex_folder_def check_folder_exists_def send_def
      split: reply.splits sum.splits if_splits bool.splits)

lemma upload_photo_to_yandex_result:
  "\<exists>r. upload_photo_to_yandex e w link fn folder =
         (r, w\<lparr>history := history w @ [DiskUpload (''/'' @ folder @ ''/'' @ fn) link]\<rparr>) \<and>
       isl r = upload_raises (env_answer e (history w) (DiskUpload (''/'' @ folder @ ''/'' @ fn) link))"
  by (cases "env_answer e (history w) (DiskUpload (''/'' @ folder @ ''/'' @ fn) link)")
     (auto simp: upload_photo_to_yandex_def send_def raise_for_status_def)

lemma base_filename_prefix:
  "base_filename strf p photos = Inr base \<Longrightarrow> prefix (show_int (likes_count p)) base"
  by (auto simp: base_filename_def split: if_splits option.splits)

lemma process_photo_cases:
  "(\<exists>link t base fn w'.
      get_largest_photo_size p = Inr (link, t) \<and>
      base_filename (env_strftime e) p photos = Inr base \<and>
      prefix base fn \<and> suffix ''.jpg'' fn \<and> fn |\<notin>| ls_used_filenames st \<and>
      \<not> upload_raises (env_answer e (history (ls_world st))
                         (DiskUpload (''/'' @ folder @ ''/'' @ fn) link)) \<and>
      files w' = files (ls_world st) \<and>
      process_photo e photos folder st p =
        Some \<lparr>ls_world = w',
              ls_photos_info = ls_photos_info st @ [\<lparr>file_name = fn, size_tag = t\<rparr>],
              ls_successful_uploads = ls_successful_uploads st + 1,
              ls_used_filenames = finsert fn (ls_used_filenames st)\<rparr>) \<or>
   (\<exists>st'. process_photo e photos folder st p = Some st' \<and>
      ls_photos_info st' = ls_photos_info st \<and>
      ls_successful_uploads st' = ls_successful_uploads st \<and>
      ls_used_filenames st |\<subseteq>| ls_used_filenames st' \<and>
      files (ls_world st') = files (ls_world st) \<and>
      (isl (get_largest_photo_size p) \<or>
       isl (base_filename (env_strftime e) p photos) \<or>
       (\<exists>link t path. get_largest_photo_size p = Inr (link, t) \<and>
          upload_raises (env_answer e (history (ls_world st)) (DiskUpload path link)))))"
proof (cases "get_largest_photo_size p")
  case (Inl err)
  then show ?thesis by (simp add: process_photo_def)
next
  case (Inr lt)
  obtain link t where lt: "lt = (link, t)" by (cases lt)
  from generate_filename_cases [of "env_strftime e" p photos "ls_used_filenames st"]
  show ?thesis
  proof
    assume "\<exists>base fn. base_filename (env_strftime e) p photos = Inr base \<and>
      generate_filename (env_strftime e) p photos (ls_used_filenames st) =
        Some (Inr (fn, finsert fn (ls_used_filenames st))) \<and>
      fn |\<notin>| ls_used_filenames st \<and> suffix ''.jpg'' fn \<and> prefix base fn"
    then obtain base fn where g: "base_filename (env_strftime e) p photos = Inr base"
      "generate_filename (env_strftime e) p photos (ls_used_filenames st) =
        Some (Inr (fn, finsert fn (ls_used_filenames st)))"
      "fn |\<notin>| ls_used_filenames st" "suffix ''.jpg'' fn" "prefix base fn" by blast
    let ?req = "DiskUpload (''/'' @ folder @ ''/'' @ fn) link"
    let ?w' = "(ls_world st)\<lparr>history := history (ls_world st) @ [?req]\<rparr>"
    from upload_photo_to_yandex_result [of e "ls_world st" link fn folder]
    obtain r where u: "upload_photo_to_yandex e (ls_world st) link fn folder = (r, ?w')"
      "isl r = upload_raises (env_answer e (history (ls_world st)) ?req)" by blast
    show ?thesis
    proof (cases r)
      case (Inl err)
      with u(2) have ra: "upload_raises (env_answer e (history (ls_world st)) ?req)" by simp
      from Inr lt g(2) u(1) Inl
      have "process_photo e photos folder st p =
          Some (st\<lparr>ls_world := ?w', ls_used_filenames := finsert fn (ls_used_filenames st)\<rparr>)"
        by (simp add: process_photo_def)
      with Inr lt ra show ?thesis by auto
    next
      case (Inr ok)
      with u(2) have ra: "\<not> upload_raises (env_answer e (history (ls_world st)) ?req)" by simp
      from \<open>get_largest_photo_size p = Inr lt\<close> lt g(2) u(1) Inr
      have "process_photo e photos folder st p =
          Some \<lparr>ls_world = ?w',
              ls_photos_info = ls_photos_info st @ [\<lparr>file_name = fn, size_tag = t\<rparr>],
              ls_successful_uploads = ls_successful_uploads st + 1,
              ls_used_filenames = finsert fn (ls_used_filenames st)\<rparr>"
        by (simp add: process_photo_def)
      moreover have "files ?w' = files (ls_world st)" by simp
      ultimately show ?thesis
        using \<open>get_largest_photo_size p = Inr lt\<close> lt g(1,3,4,5) ra by blast
    qed
  next
    assume "base_filename (env_strftime e) p photos = Inl DateError \<and>
      generate_filename (env_strftime e) p photos (ls_used_filenames st) = Some (Inl DateError) \<and>
      env_strftime e (get_date p) = None"
    with Inr lt show ?thesis by (simp add: process_photo_def)
  qed
qed

lemma process_photo_uploads:
  assumes up: "\<forall>hist path link. env_answer e hist (DiskUpload path link) = upload_reply link"
    and ok: "item_uploads (env_strftime e) upload_reply photos p"
  shows "\<exists>x w'. entry_for p x \<and> file_name x |\<notin>| ls_used_filenames st \<and>
           files w' = files (ls_world st) \<and>
           process_photo e photos folder st p =
             Some \<lparr>ls_world = w', ls_photos_info = ls_photos_info st @ [x],
                   ls_successful_uploads = ls_successful_uploads st + 1,
                   ls_used_filenames = finsert (file_name x) (ls_used_filenames st)\<rparr>"
  using process_photo_cases [of p e photos st folder]
proof
  assume "\<exists>link t base fn w'.
      get_largest_photo_size p = Inr (link, t) \<and>
      base_filename (env_strftime e) p photos = Inr base \<and>
      prefix base fn \<and> suffix ''.jpg'' fn \<and> fn |\<notin>| ls_used_filenames st \<and>
      \<not> upload_raises (env_answer e (history (ls_world st))
                         (DiskUpload (''/'' @ folder @ ''/'' @ fn) link)) \<and>
      files w' = files (ls_world st) \<and>
      process_photo e photos folder st p =
        Some \<lparr>ls_world = w',
              ls_photos_info = ls_photos_info st @ [\<lparr>file_name = fn, size_tag = t\<rparr>],
              ls_successful_uploads = ls_successful_uploads st + 1,
              ls_used_filenames = finsert fn (ls_used_filenames st)\<rparr>"
  then obtain link t base fn w' where h:
      "get_largest_photo_size p = Inr (link, t)"
      "base_filename (env_strftime e) p photos = Inr base"
      "prefix base fn" "suffix ''.jpg'' fn" "fn |\<notin>| ls_used_filenames st"
      "files w' = files (ls_world st)"
      "process_photo e photos folder st p =
        Some \<lparr>ls_world = w',
              ls_photos_info = ls_photos_info st @ [\<lparr>file_name = fn, size_tag = t\<rparr>],
              ls_successful_uploads = ls_successful_uploads st + 1,
              ls_used_filenames = finsert fn (ls_used_filenames st)\<rparr>"
    by blast
  from base_filename_prefix [OF h(2)] h(3) have "prefix (show_int (likes_count p)) fn"
    by (rule prefix_order.trans)
  with h(1,4) have "entry_for p \<lparr>file_name = fn, size_tag = t\<rparr>"
    by (simp add: entry_for_def)
  with h(5,6,7) show ?thesis
    by (intro exI [of _ "\<lparr>file_name = fn, size_tag = t\<rparr>"] exI [of _ w']) simp
next
  assume "\<exists>st'. process_photo e photos folder st p = Some st' \<and>
      ls_photos_info st' = ls_photos_info st \<and>
      ls_successful_uploads st' = ls_successful_uploads st \<and>
      ls_used_filenames st |\<subseteq>| ls_used_filenames st' \<and>
      files (ls_world st') = files (ls_world st) \<and>
      (isl (get_largest_photo_size p) \<or>
       isl (base_filename (env_strftime e) p photos) \<or>
       (\<exists>link t path. get_largest_photo_size p = Inr (link, t) \<and>
          upload_raises (env_answer e (history (ls_world st)) (DiskUpload path link))))"
  then have "isl (get_largest_photo_size p) \<or>
       isl (base_filename (env_strftime e) p photos) \<or>
       (\<exists>link t. get_largest_photo_size p = Inr (link, t) \<and> upload_raises (upload_reply link))"
    using up by auto
  with ok have False
    by (auto simp: item_uploads_def isl_def split: sum.splits)
  then show ?thesis ..
qed

lemma process_photo_skips:
  assumes up: "\<forall>hist path link. env_answer e hist (DiskUpload path link) = upload_reply link"
    and ok: "\<not> item_uploads (env_strftime e) upload_reply photos p"
  shows "\<exists>st'. process_photo e photos folder st p = Some st' \<and>
      ls_photos_info st' = ls_photos_info st \<and>
      ls_successful_uploads st' = ls_successful_uploads st \<and>
      ls_used_filenames st |\<subseteq>| ls_used_filenames st' \<and>
      files (ls_world st') = files (ls_world st)"
  using process_photo_cases [of p e photos st folder]
proof
  assume "\<exists>link t base fn w'.
      get_largest_photo_size p = Inr (link, t) \<and>
      base_filename (env_strftime e) p photos = Inr base \<and>
      prefix base fn \<and> suffix ''.jpg'' fn \<and> fn |\<notin>| ls_used_filenames st \<and>
      \<not> upload_raises (env_answer e (history (ls_world st))
                         (DiskUpload (''/'' @ folder @ ''/'' @ fn) link)) \<and>
      files w' = files (ls_world st) \<and>
      process_photo e photos folder st p =
        Some \<lparr>ls_world = w',
              ls_photos_info = ls_photos_info st @ [\<lparr>file_name = fn, size_tag = t\<rparr>],
              ls_successful_uploads = ls_successful_uploads st + 1,
              ls_used_filenames = finsert fn (ls_used_filenames st)\<rparr>"
  then obtain link t base where "get_largest_photo_size p = Inr (link, t)"
      "base_filename (env_strftime e) p photos = Inr base"
      "\<not> upload_raises (upload_reply link)"
    using up by auto
  with ok have False by (simp add: item_uploads_def)
  then show ?thesis ..
next
  assume "\<exists>st'. process_photo e photos folder st p = Some st' \<and>
      ls_photos_info st' = ls_photos_info st \<and>
      ls_successful_uploads st' = ls_successful_uploads st \<and>
      ls_used_filenames st |\<subseteq>| ls_used_filenames st' \<and>
      files (ls_world st') = files (ls_world st) \<and>
      (isl (get_largest_photo_size p) \<or>
       isl (base_filename (env_strftime e) p photos) \<or>
       (\<exists>link t path. get_largest_photo_size p = Inr (link, t) \<and>
          upload_raises (env_answer e (history (ls_world st)) (DiskUpload path link))))"
  then show ?thesis by blast
qed

lemma upload_loop_manifest:
  assumes up: "\<forall>hist path link. env_answer e hist (DiskUpload path link) = upload_reply link"
  shows "\<exists>st' new. upload_loop e photos folder ps st = Some st' \<and>
      files (ls_world st') = files (ls_world st) \<and>
      ls_used_filenames st |\<subseteq>| ls_used_filenames st' \<and>
      ls_successful_uploads st' =
        ls_successful_uploads st +
        length (filter (item_uploads (env_strftime e) upload_reply photos) ps) \<and>
      ls_photos_info st' = ls_photos_info st @ new \<and>
      list_all2 entry_for (filter (item_uploads (env_strftime e) upload_reply photos) ps) new \<and>
      distinct (map file_name new) \<and>
      (\<forall>x \<in> set new. file_name x |\<notin>| ls_used_filenames st)"
proof (induction ps arbitrary: st)
  case Nil
  show ?case by simp
next
  case (Cons p ps)
  let ?ok = "item_uploads (env_strftime e) upload_reply photos"
  show ?case
  proof (cases "?ok p")
    case True
    from process_photo_uploads [OF up True, where st = st and folder = folder]
    obtain x w' where x: "entry_for p x" "file_name x |\<notin>| ls_used_filenames st"
      "files w' = files (ls_world st)"
      "process_photo e photos folder st p =
             Some \<lparr>ls_world = w', ls_photos_info = ls_photos_info st @ [x],
                   ls_successful_uploads = ls_successful_uploads st + 1,
                   ls_used_filenames = finsert (file_name x) (ls_used_filenames st)\<rparr>"
      by blast
    let ?st1 = "\<lparr>ls_world = w', ls_photos_info = ls_photos_info st @ [x],
                   ls_successful_uploads = ls_successful_uploads st + 1,
                   ls_used_filenames = finsert (file_name x) (ls_used_filenames st)\<rparr>"
    from Cons.IH [of ?st1]
    obtain st' new where r: "upload_loop e photos folder ps ?st1 = Some st'"
      "files (ls_world st') = files (ls_world ?st1)"
      "ls_used_filenames ?st1 |\<subseteq>| ls_used_filenames st'"
      "ls_successful_uploads st' = ls_successful_uploads ?st1 + length (filter ?ok ps)"
      "ls_photos_info st' = ls_photos_info ?st1 @ new"
      "list_all2 entry_for (filter ?ok ps) new"
      "distinct (map file_name new)"
      "\<forall>y \<in> set new. file_name y |\<notin>| ls_used_filenames ?st1"
      by blast
    from x(4) r(1) have 1: "upload_loop e photos folder (p # ps) st = Some st'" by simp
    from r(2) x(3) have 2: "files (ls_world st') = files (ls_world st)" by simp
    from r(3) have 3: "ls_used_filenames st |\<subseteq>| ls_used_filenames st'" by auto
    from r(4) True have 4: "ls_successful_uploads st' =
        ls_successful_uploads st + length (filter ?ok (p # ps))" by simp
    from r(5) have 5: "ls_photos_info st' = ls_photos_info st @ (x # new)" by simp
    from r(6) x(1) True have 6: "list_all2 entry_for (filter ?ok (p # ps)) (x # new)" by simp
    from r(7,8) have 7: "distinct (map file_name (x # new))" by auto
    from r(8) x(2) have 8: "\<forall>y \<in> set (x # new). file_name y |\<notin>| ls_used_filenames st" by auto
    from 1 2 3 4 5 6 7 8 show ?thesis by blast
  next
    case False
    from process_photo_skips [OF up False, where st = st and folder = folder]
    obtain st1 where s: "process_photo e photos folder st p = Some st1"
      "ls_photos_info st1 = ls_photos_info st"
      "ls_successful_uploads st1 = ls_successful_uploads st"
      "ls_used_filenames st |\<subseteq>| ls_used_filenames st1"
      "files (ls_world st1) = files (ls_world st)"
      by blast
    from Cons.IH [of st1]
    obtain st' new where r: "upload_loop e photos folder ps st1 = Some st'"
      "files (ls_world st') = files (ls_world st1)"
      "ls_used_filenames st1 |\<subseteq>| ls_used_filenames st'"
      "ls_successful_uploads st' = ls_successful_uploads st1 + length (filter ?ok ps)"
      "ls_photos_info st' = ls_photos_info st1 @ new"
      "list_all2 entry_for (filter ?ok ps) new"
      "distinct (map file_name new)"
      "\<forall>y \<in> set new. file_name y |\<notin>| ls_used_filenames st1"
      by blast
    from s(1) r(1) have 1: "upload_loop e photos folder (p # ps) st = Some st'" by simp
    from r(2) s(5) have 2: "files (ls_world st') = files (ls_world st)" by simp
    from r(3) s(4) have 3: "ls_used_filenames st |\<subseteq>| ls_used_filenames st'" by auto
    from r(4) s(3) False have 4: "ls_successful_uploads st' =
        ls_successful_uploads st + length (filter ?ok (p # ps))" by simp
    from r(5) s(2) have 5: "ls_photos_info st' = ls_photos_info st @ new" by simp
    from r(6) False have 6: "list_all2 entry_for (filter ?ok (p # ps)) new" by simp
    from r(8) s(4) have 8: "\<forall>y \<in> set new. file_name y |\<notin>| ls_used_filenames st" by auto
    from 1 2 3 4 5 6 r(7) 8 show ?thesis by blast
  qed
qed

lemma process_photo_all_fail:
  assumes "\<forall>hist path link. upload_raises (env_answer e hist (DiskUpload path link))"
  shows "\<exists>st'. process_photo e photos folder st p = Some st' \<and>
      ls_photos_info st' = ls_photos_info st \<and>
      ls_successful_uploads st' = ls_successful_uploads st \<and>
      files (ls_world st') = files (ls_world st)"
  using process_photo_cases [of p e photos st folder] assms by blast

lemma upload_loop_all_fail:
  assumes "\<forall>hist path link. upload_raises (env_answer e hist (DiskUpload path link))"
  shows "\<exists>st'. upload_loop e photos folder ps st = Some st' \<and>
      ls_photos_info st' = ls_photos_info st \<and>
      ls_successful_uploads st' = ls_successful_uploads st \<and>
      files (ls_world st') = files (ls_world st)"
proof (induction ps arbitrary: st)
  case Nil
  show ?case by simp
next
  case (Cons p ps)
  from process_photo_all_fail [OF assms, where photos = photos and folder = folder and st = st and p = p]
  obtain st1 where s: "process_photo e photos folder st p = Some st1"
      "ls_photos_info st1 = ls_photos_info st"
      "ls_successful_uploads st1 = ls_successful_uploads st"
      "files (ls_world st1) = files (ls_world st)" by blast
  from Cons.IH [of st1] s show ?case by auto
qed

lemma process_photo_returns: "\<exists>st'. process_photo e photos folder st p = Some st'"
  using process_photo_cases [of p e photos st folder] by blast

lemma sort_photos_length: "length (sort_photos xs) = length xs"
  by (simp add: sort_photos_def)

lemma sort_photos_Nil: "(sort_photos xs = []) = (xs = [])"
  using sort_photos_length [of xs] by (metis length_0_conv)

subsection \<open>Outcomes of a run\<close>

text \<open>
  Claim C4 (as amended). When both credentials are accepted and the source account
  returns no photos, \<open>backup_photos\<close> returns the result with \<open>success\<close> false and the
  message that the profile has no photos. The result has these two entries only: it has
  no uploaded count and no total count. No manifest file is written: the files after the
  run are the files before it.
\<close>

theorem backup_photos_no_photos:
  assumes vk: "check_vk_token_validity e w = (Inr r1, w1)"
    and yd: "check_yandex_disk_availability e w1 = (Inr r2, w2)"
    and ph: "get_profile_photos e w2 user_id count = (Inr [], w3)"
  shows "\<exists>res. backup_photos e w user_id count = Some (res, w3) \<and>
           res = [(''success'', PyBool False), (''message'', PyMessage NoPhotosInProfile)] \<and>
           map_of res ''uploaded_photos'' = None \<and> map_of res ''total_photos'' = None \<and>
           files w3 = files w"
proof -
  from vk yd ph have "files w3 = files w"
    using check_vk_token_validity_files check_yandex_disk_availability_files
      get_profile_photos_files by metis
  with vk yd ph show ?thesis by (simp add: backup_photos_def)
qed

theorem backup_photos_no_photos_witness:
  "check_vk_token_validity (demo_env [] (always 202)) fresh_world =
     (Inr PyTrue, \<lparr>history = [VkProfileInfo], files = []\<rparr>) \<and>
   check_yandex_disk_availability (demo_env [] (always 202))
       \<lparr>history = [VkProfileInfo], files = []\<rparr> =
     (Inr PyTrue, \<lparr>history = [VkProfileInfo, DiskGet ''/''], files = []\<rparr>) \<and>
   get_profile_photos (demo_env [] (always 202))
       \<lparr>history = [VkProfileInfo, DiskGet ''/''], files = []\<rparr> ''42'' 5 =
     (Inr [], \<lparr>history = [VkProfileInfo, DiskGet ''/'', VkPhotosGet ''42'' 5], files = []\<rparr>) \<and>
   backup_photos (demo_env [] (always 202)) fresh_world ''42'' 5 =
     Some ([(''success'', PyBool False), (''message'', PyMessage NoPhotosInProfile)],
           \<lparr>history = [VkProfileInfo, DiskGet ''/'', VkPhotosGet ''42'' 5], files = []\<rparr>) \<and>
   files \<lparr>history = [VkProfileInfo, DiskGet ''/'', VkPhotosGet ''42'' 5], files = []\<rparr> =
     files fresh_world"
proof -
  let ?e = "demo_env [] (always 202)"
  have vk: "check_vk_token_validity ?e fresh_world =
     (Inr PyTrue, \<lparr>history = [VkProfileInfo], files = []\<rparr>)"
    by (simp add: client_defs demo_defs)
  have yd: "check_yandex_disk_availability ?e \<lparr>history = [VkProfileInfo], files = []\<rparr> =
     (Inr PyTrue, \<lparr>history = [VkProfileInfo, DiskGet ''/''], files = []\<rparr>)"
    by (simp add: client_defs demo_defs)
  have ph: "get_profile_photos ?e \<lparr>history = [VkProfileInfo, DiskGet ''/''], files = []\<rparr> ''42'' 5 =
     (Inr [], \<lparr>history = [VkProfileInfo, DiskGet ''/'', VkPhotosGet ''42'' 5], files = []\<rparr>)"
    by (simp add: client_defs demo_defs)
  from backup_photos_no_photos [OF vk yd ph] vk yd ph show ?thesis by simp
qed

text \<open>
  The claim as first stated asks for an uploaded count of 0 and a total count of 0 in the
  result of such a run; the result of the run on an account without photos has neither.
\<close>

theorem backup_photos_no_photos_has_no_counts:
  "\<not> (\<exists>res w'. backup_photos (demo_env [] (always 202)) fresh_world ''42'' 5 = Some (res, w') \<and>
         map_of res ''success'' = Some (PyBool False) \<and>
         map_of res ''uploaded_photos'' = Some (PyInt 0) \<and>
         map_of res ''total_photos'' = Some (PyInt 0))"
proof -
  have "backup_photos (demo_env [] (always 202)) fresh_world ''42'' 5 =
     Some ([(''success'', PyBool False), (''message'', PyMessage NoPhotosInProfile)],
           \<lparr>history = [VkProfileInfo, DiskGet ''/'', VkPhotosGet ''42'' 5], files = []\<rparr>)"
    by (simp add: client_defs run_defs demo_defs)
  then show ?thesis by auto
qed

text \<open>
  Claim C5 (as amended). When both credentials are accepted, the source account returns
  photos (five, or any positive number), the folder is provisioned and the storage
  service answers every upload request with a transport failure or a status from 400 to
  599, \<open>backup_photos\<close> returns the result with \<open>success\<close> false and the message that no
  photo was uploaded. The result has these two entries only: it has no uploaded count
  and no total count. No manifest file is written.
\<close>

theorem backup_photos_all_uploads_fail:
  assumes vk: "check_vk_token_validity e w = (Inr r1, w1)"
    and yd: "check_yandex_disk_availability e w1 = (Inr r2, w2)"
    and ph: "get_profile_photos e w2 user_id count = (Inr fetched, w3)"
    and ne: "fetched \<noteq> []"
    and cf: "create_yandex_folder e w3 (''VK_Photos_'' @ user_id @ ''_'' @ env_today e) = (Inr r3, w4)"
    and fail: "\<forall>hist path link. upload_raises (env_answer e hist (DiskUpload path link))"
  shows "\<exists>res w'. backup_photos e w user_id count = Some (res, w') \<and>
           res = [(''success'', PyBool False), (''message'', PyMessage NothingUploaded)] \<and>
           map_of res ''uploaded_photos'' = None \<and> map_of res ''total_photos'' = None \<and>
           files w' = files w"
proof -
  let ?folder = "''VK_Photos_'' @ user_id @ ''_'' @ env_today e"
  let ?st0 = "\<lparr>ls_world = w4, ls_photos_info = [], ls_successful_uploads = 0,
               ls_used_filenames = {||}\<rparr>"
  from vk yd ph cf have f4: "files w4 = files w"
    using check_vk_token_validity_files check_yandex_disk_availability_files
      get_profile_photos_files create_yandex_folder_files by metis
  from upload_loop_all_fail [OF fail, of "sort_photos fetched" ?folder "sort_photos fetched" ?st0]
  obtain st' where l: "upload_loop e (sort_photos fetched) ?folder (sort_photos fetched) ?st0 = Some st'"
    "ls_successful_uploads st' = 0" "files (ls_world st') = files w4" by auto
  from vk yd ph ne cf l(1,2)
  have "backup_photos e w user_id count =
      Some ([(''success'', PyBool False), (''message'', PyMessage NothingUploaded)], ls_world st')"
    by (simp add: backup_photos_def Let_def)
  with l(3) f4 show ?thesis by simp
qed

theorem backup_photos_all_uploads_fail_witness:
  "check_vk_token_validity (demo_env five_photos (always 500)) fresh_world =
     (Inr PyTrue, \<lparr>history = [VkProfileInfo], files = []\<rparr>) \<and>
   check_yandex_disk_availability (demo_env five_photos (always 500))
       \<lparr>history = [VkProfileInfo], files = []\<rparr> =
     (Inr PyTrue, \<lparr>history = [VkProfileInfo, DiskGet ''/''], files = []\<rparr>) \<and>
   get_profile_photos (demo_env five_photos (always 500))
       \<lparr>history = [VkProfileInfo, DiskGet ''/''], files = []\<rparr> ''42'' 5 =
     (Inr five_photos,
      \<lparr>history = [VkProfileInfo, DiskGet ''/'', VkPhotosGet ''42'' 5], files = []\<rparr>) \<and>
   length five_photos = 5 \<and>
   create_yandex_folder (demo_env five_photos (always 500))
       \<lparr>history = [VkProfileInfo, DiskGet ''/'', VkPhotosGet ''42'' 5], files = []\<rparr>
       ''VK_Photos_42_2024-01-15'' =
     (Inr PyTrue,
      \<lparr>history = [VkProfileInfo, DiskGet ''/'', VkPhotosGet ''42'' 5,
                  DiskGet ''/VK_Photos_42_2024-01-15'', DiskPut ''/VK_Photos_42_2024-01-15''],
       files = []\<rparr>) \<and>
   upload_raises (always 500 ''b-z'') \<and>
   backup_photos (demo_env five_photos (always 500)) fresh_world ''42'' 5 =
     Some ([(''success'', PyBool False), (''message'', PyMessage NothingUploaded)],
           \<lparr>history =
              [VkProfileInfo, DiskGet ''/'', VkPhotosGet ''42'' 5,
               DiskGet ''/VK_Photos_42_2024-01-15'', DiskPut ''/VK_Photos_42_2024-01-15'',
               DiskUpload ''/VK_Photos_42_2024-01-15/5_1970-01-02.jpg'' ''b-z'',
               DiskUpload ''/VK_Photos_42_2024-01-15/5_1970-01-01.jpg'' ''a-y'',
               DiskUpload ''/VK_Photos_42_2024-01-15/7.jpg'' ''c-x'',
               DiskUpload ''/VK_Photos_42_2024-01-15/5_1970-01-01_104.jpg'' ''d-x'',
               DiskUpload ''/VK_Photos_42_2024-01-15/0.jpg'' ''e-m''],
            files = []\<rparr>) \<and>
   (\<exists>res w'. backup_photos (demo_env five_photos (always 500)) fresh_world ''42'' 5 =
        Some (res, w') \<and>
      res = [(''success'', PyBool False), (''message'', PyMessage NothingUploaded)] \<and>
      map_of res ''uploaded_photos'' = None \<and> map_of res ''total_photos'' = None \<and>
      files w' = files fresh_world)"
proof -
  let ?e = "demo_env five_photos (always 500)"
  have vk: "check_vk_token_validity ?e fresh_world =
     (Inr PyTrue, \<lparr>history = [VkProfileInfo], files = []\<rparr>)"
    by (simp add: client_defs demo_defs)
  have yd: "check_yandex_disk_availability ?e \<lparr>history = [VkProfileInfo], files = []\<rparr> =
     (Inr PyTrue, \<lparr>history = [VkProfileInfo, DiskGet ''/''], files = []\<rparr>)"
    by (simp add: client_defs demo_defs)
  have ph: "get_profile_photos ?e \<lparr>history = [VkProfileInfo, DiskGet ''/''], files = []\<rparr> ''42'' 5 =
     (Inr five_photos,
      \<lparr>history = [VkProfileInfo, DiskGet ''/'', VkPhotosGet ''42'' 5], files = []\<rparr>)"
    by (simp add: client_defs demo_env_def)
  have n5: "length five_photos = 5" by (simp add: five_photos_def)
  then have ne: "five_photos \<noteq> []" by auto
  have cf: "create_yandex_folder ?e
       \<lparr>history = [VkProfileInfo, DiskGet ''/'', VkPhotosGet ''42'' 5], files = []\<rparr>
       (''VK_Photos_'' @ ''42'' @ ''_'' @ env_today ?e) =
     (Inr PyTrue,
      \<lparr>history = [VkProfileInfo, DiskGet ''/'', VkPhotosGet ''42'' 5,
                  DiskGet ''/VK_Photos_42_2024-01-15'', DiskPut ''/VK_Photos_42_2024-01-15''],
       files = []\<rparr>)"
    by (simp add: client_defs demo_env_def)
  have fail: "\<forall>hist path link. upload_raises (env_answer ?e hist (DiskUpload path link))"
    by (simp add: demo_env_def always_def)
  have r: "upload_raises (always 500 ''b-z'')" by (simp add: always_def)
  have run: "backup_photos ?e fresh_world ''42'' 5 =
     Some ([(''success'', PyBool False), (''message'', PyMessage NothingUploaded)],
           \<lparr>history =
              [VkProfileInfo, DiskGet ''/'', VkPhotosGet ''42'' 5,
               DiskGet ''/VK_Photos_42_2024-01-15'', DiskPut ''/VK_Photos_42_2024-01-15'',
               DiskUpload ''/VK_Photos_42_2024-01-15/5_1970-01-02.jpg'' ''b-z'',
               DiskUpload ''/VK_Photos_42_2024-01-15/5_1970-01-01.jpg'' ''a-y'',
               DiskUpload ''/VK_Photos_42_2024-01-15/7.jpg'' ''c-x'',
               DiskUpload ''/VK_Photos_42_2024-01-15/5_1970-01-01_104.jpg'' ''d-x'',
               DiskUpload ''/VK_Photos_42_2024-01-15/0.jpg'' ''e-m''],
            files = []\<rparr>)"
    by (simp add: size_defs name_defs client_defs run_defs demo_defs)
  note t = backup_photos_all_uploads_fail [OF vk yd ph ne cf fail]
  from cf have cf': "create_yandex_folder ?e
       \<lparr>history = [VkProfileInfo, DiskGet ''/'', VkPhotosGet ''42'' 5], files = []\<rparr>
       ''VK_Photos_42_2024-01-15'' =
     (Inr PyTrue,
      \<lparr>history = [VkProfileInfo, DiskGet ''/'', VkPhotosGet ''42'' 5,
                  DiskGet ''/VK_Photos_42_2024-01-15'', DiskPut ''/VK_Photos_42_2024-01-15''],
       files = []\<rparr>)"
    by (simp add: demo_env_def)
  from vk yd ph n5 cf' r run t show ?thesis by blast
qed

text \<open>
  The claim as first stated asks for an uploaded count of 0 and a total count of 5 in the
  result of a run of five photos whose uploads all fail; the result has neither.
\<close>

theorem backup_photos_all_uploads_fail_has_no_counts:
  "\<not> (\<exists>res w'. backup_photos (demo_env five_photos (always 500)) fresh_world ''42'' 5 =
           Some (res, w') \<and>
         map_of res ''success'' = Some (PyBool False) \<and>
         map_of res ''uploaded_photos'' = Some (PyInt 0) \<and>
         map_of res ''total_photos'' = Some (PyInt 5))"
proof -
  have "\<exists>w'. backup_photos (demo_env five_photos (always 500)) fresh_world ''42'' 5 =
     Some ([(''success'', PyBool False), (''message'', PyMessage NothingUploaded)], w')"
    by (simp add: size_defs name_defs client_defs run_defs demo_defs)
  then show ?thesis by auto
qed

text \<open>
  Claim C6. Let both credentials be accepted, the folder be provisioned, the manifest
  file be writable, and let the storage service answer an upload by the resource link
  alone; a photo fails when its size selection raises, its date cannot be formatted or
  the answer for its link is a transport failure or a status from 400 to 599. If at
  least one photo of the run does not fail, \<open>backup_photos\<close> returns \<open>success\<close> true, the
  total count is the number of photos fetched, the uploaded count is the number of
  photos that do not fail, and the manifest, which is also the content of the file
  written, has exactly one entry for each photo that does not fail, in the order of the
  run and with pairwise distinct filenames. A photo that fails does not end the loop:
  the loop goes on with the remaining photos from a state with the same manifest and
  the same count. For five photos of which one meets a transport fault this gives
  \<open>success\<close> true, 4 uploaded, 5 in total and a manifest of 4 entries.
\<close>

theorem backup_photos_partial_failure:
  assumes vk: "check_vk_token_validity e w = (Inr r1, w1)"
    and yd: "check_yandex_disk_availability e w1 = (Inr r2, w2)"
    and ph: "get_profile_photos e w2 user_id count = (Inr fetched, w3)"
    and cf: "create_yandex_folder e w3 (''VK_Photos_'' @ user_id @ ''_'' @ env_today e) = (Inr r3, w4)"
    and up: "\<forall>hist path link. env_answer e hist (DiskUpload path link) = upload_reply link"
    and some: "filter (item_uploads (env_strftime e) upload_reply (sort_photos fetched))
                 (sort_photos fetched) \<noteq> []"
    and wr: "env_write_ok e (''photos_info_'' @ user_id @ ''.json'')"
  shows "(\<exists>manifest w'.
            backup_photos e w user_id count =
              Some ([(''success'', PyBool True),
                     (''total_photos'', PyInt (int (length fetched))),
                     (''uploaded_photos'',
                        PyInt (int (length (filter
                          (item_uploads (env_strftime e) upload_reply (sort_photos fetched))
                          (sort_photos fetched))))),
                     (''folder_name'', PyStr (''VK_Photos_'' @ user_id @ ''_'' @ env_today e)),
                     (''json_file'', PyStr (''photos_info_'' @ user_id @ ''.json'')),
                     (''photos_info'', PyList manifest)], w') \<and>
            list_all2 entry_for
              (filter (item_uploads (env_strftime e) upload_reply (sort_photos fetched))
                 (sort_photos fetched)) manifest \<and>
            distinct (map file_name manifest) \<and>
            files w' = (''photos_info_'' @ user_id @ ''.json'', manifest) # files w) \<and>
         (\<forall>p rest st folder.
            \<not> item_uploads (env_strftime e) upload_reply (sort_photos fetched) p \<longrightarrow>
            (\<exists>st'. upload_loop e (sort_photos fetched) folder (p # rest) st =
                     upload_loop e (sort_photos fetched) folder rest st' \<and>
                   ls_photos_info st' = ls_photos_info st \<and>
                   ls_successful_uploads st' = ls_successful_uploads st))"
proof
  let ?photos = "sort_photos fetched"
  let ?ok = "item_uploads (env_strftime e) upload_reply ?photos"
  let ?folder = "''VK_Photos_'' @ user_id @ ''_'' @ env_today e"
  let ?json = "''photos_info_'' @ user_id @ ''.json''"
  let ?st0 = "\<lparr>ls_world = w4, ls_photos_info = [], ls_successful_uploads = 0,
               ls_used_filenames = {||}\<rparr>"
  from some have "?photos \<noteq> []" by auto
  then have ne: "fetched \<noteq> []" by (simp add: sort_photos_Nil)
  from vk yd ph cf have f4: "files w4 = files w"
    using check_vk_token_validity_files check_yandex_disk_availability_files
      get_profile_photos_files create_yandex_folder_files by metis
  from upload_loop_manifest [OF up, of ?photos ?folder ?photos ?st0]
  obtain st' new where l: "upload_loop e ?photos ?folder ?photos ?st0 = Some st'"
    "files (ls_world st') = files w4"
    "ls_successful_uploads st' = length (filter ?ok ?photos)"
    "ls_photos_info st' = new"
    "list_all2 entry_for (filter ?ok ?photos) new"
    "distinct (map file_name new)"
    by auto
  from l(3) some have pos: "ls_successful_uploads st' \<noteq> 0" by simp
  let ?w' = "(ls_world st')\<lparr>files := (?json, new) # files (ls_world st')\<rparr>"
  from wr l(4) have sv: "save_photos_info e (ls_world st') (ls_photos_info st') user_id = (Inr ?json, ?w')"
    by (simp add: save_photos_info_def Let_def)
  from vk yd ph ne cf l(1) pos sv l(3,4)
  have "backup_photos e w user_id count =
      Some ([(''success'', PyBool True),
             (''total_photos'', PyInt (int (length fetched))),
             (''uploaded_photos'', PyInt (int (length (filter ?ok ?photos)))),
             (''folder_name'', PyStr ?folder),
             (''json_file'', PyStr ?json),
             (''photos_info'', PyList new)], ?w')"
    by (simp add: backup_photos_def Let_def sort_photos_length)
  moreover from l(2) f4 have "files ?w' = (?json, new) # files w" by simp
  ultimately show "\<exists>manifest w'.
            backup_photos e w user_id count =
              Some ([(''success'', PyBool True),
                     (''total_photos'', PyInt (int (length fetched))),
                     (''uploaded_photos'', PyInt (int (length (filter ?ok ?photos)))),
                     (''folder_name'', PyStr ?folder),
                     (''json_file'', PyStr ?json),
                     (''photos_info'', PyList manifest)], w') \<and>
            list_all2 entry_for (filter ?ok ?photos) manifest \<and>
            distinct (map file_name manifest) \<and>
            files w' = (?json, manifest) # files w"
    using l(5,6) by blast
next
  let ?photos = "sort_photos fetched"
  let ?ok = "item_uploads (env_strftime e) upload_reply ?photos"
  show "\<forall>p rest st folder. \<not> ?ok p \<longrightarrow>
            (\<exists>st'. upload_loop e ?photos folder (p # rest) st =
                     upload_loop e ?photos folder rest st' \<and>
                   ls_photos_info st' = ls_photos_info st \<and>
                   ls_successful_uploads st' = ls_successful_uploads st)"
  proof (intro allI impI)
    fix p rest st folder
    assume "\<not> ?ok p"
    from process_photo_skips [OF up this, where st = st and folder = folder]
    obtain st' where "process_photo e ?photos folder st p = Some st'"
      "ls_photos_info st' = ls_photos_info st"
      "ls_successful_uploads st' = ls_successful_uploads st" by blast
    then show "\<exists>st'. upload_loop e ?photos folder (p # rest) st =
                     upload_loop e ?photos folder rest st' \<and>
                   ls_photos_info st' = ls_photos_info st \<and>
                   ls_successful_uploads st' = ls_successful_uploads st"
      by (intro exI [of _ st']) simp
  qed
qed

theorem backup_photos_partial_failure_witness:
  "length five_photos = 5 \<and>
   filter (item_uploads demo_strftime one_transport_fault (sort_photos five_photos))
       (sort_photos five_photos) = [photo_a, photo_c, photo_d, photo_e] \<and>
   \<not> item_uploads demo_strftime one_transport_fault (sort_photos five_photos) photo_b \<and>
   backup_photos (demo_env five_photos one_transport_fault) fresh_world ''42'' 5 =
     Some ([(''success'', PyBool True), (''total_photos'', PyInt 5),
            (''uploaded_photos'', PyInt 4),
            (''folder_name'', PyStr ''VK_Photos_42_2024-01-15''),
            (''json_file'', PyStr ''photos_info_42.json''),
            (''photos_info'',
             PyList [\<lparr>file_name = ''5_1970-01-01.jpg'', size_tag = ''y''\<rparr>,
                     \<lparr>file_name = ''7.jpg'', size_tag = ''x''\<rparr>,
                     \<lparr>file_name = ''5_1970-01-01_104.jpg'', size_tag = ''x''\<rparr>,
                     \<lparr>file_name = ''0.jpg'', size_tag = ''m''\<rparr>])],
           \<lparr>history =
              [VkProfileInfo, DiskGet ''/'', VkPhotosGet ''42'' 5,
               DiskGet ''/VK_Photos_42_2024-01-15'', DiskPut ''/VK_Photos_42_2024-01-15'',
               DiskUpload ''/VK_Photos_42_2024-01-15/5_1970-01-02.jpg'' ''b-z'',
               DiskUpload ''/VK_Photos_42_2024-01-15/5_1970-01-01.jpg'' ''a-y'',
               DiskUpload ''/VK_Photos_42_2024-01-15/7.jpg'' ''c-x'',
               DiskUpload ''/VK_Photos_42_2024-01-15/5_1970-01-01_104.jpg'' ''d-x'',
               DiskUpload ''/VK_Photos_42_2024-01-15/0.jpg'' ''e-m''],
            files =
              [(''photos_info_42.json'',
                [\<lparr>file_name = ''5_1970-01-01.jpg'', size_tag = ''y''\<rparr>,
                 \<lparr>file_name = ''7.jpg'', size_tag = ''x''\<rparr>,
                 \<lparr>file_name = ''5_1970-01-01_104.jpg'', size_tag = ''x''\<rparr>,
                 \<lparr>file_name = ''0.jpg'', size_tag = ''m''\<rparr>])]\<rparr>) \<and>
   list_all2 entry_for [photo_a, photo_c, photo_d, photo_e]
     [\<lparr>file_name = ''5_1970-01-01.jpg'', size_tag = ''y''\<rparr>,
      \<lparr>file_name = ''7.jpg'', size_tag = ''x''\<rparr>,
      \<lparr>file_name = ''5_1970-01-01_104.jpg'', size_tag = ''x''\<rparr>,
      \<lparr>file_name = ''0.jpg'', size_tag = ''m''\<rparr>] \<and>
   (\<exists>st'. upload_loop (demo_env five_photos one_transport_fault) (sort_photos five_photos)
            ''F'' [photo_b, photo_a]
            \<lparr>ls_world = fresh_world, ls_photos_info = [], ls_successful_uploads = 0,
             ls_used_filenames = {||}\<rparr> =
          upload_loop (demo_env five_photos one_transport_fault) (sort_photos five_photos)
            ''F'' [photo_a] st' \<and>
          ls_photos_info st' = [] \<and> ls_successful_uploads st' = 0)"
proof -
  let ?e = "demo_env five_photos one_transport_fault"
  let ?ok = "item_uploads demo_strftime one_transport_fault (sort_photos five_photos)"
  have st: "env_strftime ?e = demo_strftime" by (simp add: demo_env_def)
  have vk: "check_vk_token_validity ?e fresh_world =
     (Inr PyTrue, \<lparr>history = [VkProfileInfo], files = []\<rparr>)"
    by (simp add: client_defs demo_defs)
  have yd: "check_yandex_disk_availability ?e \<lparr>history = [VkProfileInfo], files = []\<rparr> =
     (Inr PyTrue, \<lparr>history = [VkProfileInfo, DiskGet ''/''], files = []\<rparr>)"
    by (simp add: client_defs demo_defs)
  have ph: "get_profile_photos ?e \<lparr>history = [VkProfileInfo, DiskGet ''/''], files = []\<rparr> ''42'' 5 =
     (Inr five_photos,
      \<lparr>history = [VkProfileInfo, DiskGet ''/'', VkPhotosGet ''42'' 5], files = []\<rparr>)"
    by (simp add: client_defs demo_env_def)
  have cf: "create_yandex_folder ?e
       \<lparr>history = [VkProfileInfo, DiskGet ''/'', VkPhotosGet ''42'' 5], files = []\<rparr>
       (''VK_Photos_'' @ ''42'' @ ''_'' @ env_today ?e) =
     (Inr PyTrue,
      \<lparr>history = [VkProfileInfo, DiskGet ''/'', VkPhotosGet ''42'' 5,
                  DiskGet ''/VK_Photos_42_2024-01-15'', DiskPut ''/VK_Photos_42_2024-01-15''],
       files = []\<rparr>)"
    by (simp add: client_defs demo_env_def)
  have up: "\<forall>hist path link. env_answer ?e hist (DiskUpload path link) = one_transport_fault link"
    by (simp add: demo_env_def)
  have n5: "length five_photos = 5" by (simp add: five_photos_def)
  have srt: "sort_photos five_photos = [photo_b, photo_a, photo_c, photo_d, photo_e]"
    by (simp add: sort_photos_def get_max_size_def total_pixels_def get_width_def
        get_height_def variant_def photo_a_def photo_b_def photo_c_def photo_d_def photo_e_def
        five_photos_def)
  have fl: "filter ?ok (sort_photos five_photos) = [photo_a, photo_c, photo_d, photo_e]"
    unfolding srt
    by (simp add: item_uploads_def size_defs base_filename_def same_likes_photos_def
        likes_count_def get_date_def demo_strftime_def one_transport_fault_def variant_def
        photo_a_def photo_b_def photo_c_def photo_d_def photo_e_def)
  then have some: "filter (item_uploads (env_strftime ?e) one_transport_fault (sort_photos five_photos))
                 (sort_photos five_photos) \<noteq> []"
    by (simp add: st)
  have nb: "\<not> ?ok photo_b"
    unfolding srt
    by (simp add: item_uploads_def size_defs base_filename_def same_likes_photos_def
        likes_count_def get_date_def demo_strftime_def one_transport_fault_def variant_def
        photo_a_def photo_b_def photo_c_def photo_d_def photo_e_def)
  have wr: "env_write_ok ?e (''photos_info_'' @ ''42'' @ ''.json'')" by (simp add: demo_env_def)
  have run: "backup_photos ?e fresh_world ''42'' 5 =
     Some ([(''success'', PyBool True), (''total_photos'', PyInt 5),
            (''uploaded_photos'', PyInt 4),
            (''folder_name'', PyStr ''VK_Photos_42_2024-01-15''),
            (''json_file'', PyStr ''photos_info_42.json''),
            (''photos_info'',
             PyList [\<lparr>file_name = ''5_1970-01-01.jpg'', size_tag = ''y''\<rparr>,
                     \<lparr>file_name = ''7.jpg'', size_tag = ''x''\<rparr>,
                     \<lparr>file_name = ''5_1970-01-01_104.jpg'', size_tag = ''x''\<rparr>,
                     \<lparr>file_name = ''0.jpg'', size_tag = ''m''\<rparr>])],
           \<lparr>history =
              [VkProfileInfo, DiskGet ''/'', VkPhotosGet ''42'' 5,
               DiskGet ''/VK_Photos_42_2024-01-15'', DiskPut ''/VK_Photos_42_2024-01-15'',
               DiskUpload ''/VK_Photos_42_2024-01-15/5_1970-01-02.jpg'' ''b-z'',
               DiskUpload ''/VK_Photos_42_2024-01-15/5_1970-01-01.jpg'' ''a-y'',
               DiskUpload ''/VK_Photos_42_2024-01-15/7.jpg'' ''c-x'',
               DiskUpload ''/VK_Photos_42_2024-01-15/5_1970-01-01_104.jpg'' ''d-x'',
               DiskUpload ''/VK_Photos_42_2024-01-15/0.jpg'' ''e-m''],
            files =
              [(''photos_info_42.json'',
                [\<lparr>file_name = ''5_1970-01-01.jpg'', size_tag = ''y''\<rparr>,
                 \<lparr>file_name = ''7.jpg'', size_tag = ''x''\<rparr>,
                 \<lparr>file_name = ''5_1970-01-01_104.jpg'', size_tag = ''x''\<rparr>,
                 \<lparr>file_name = ''0.jpg'', size_tag = ''m''\<rparr>])]\<rparr>)"
    by (simp add: size_defs name_defs client_defs run_defs demo_defs)
  note t = backup_photos_partial_failure [OF vk yd ph cf up some wr]
  from t obtain manifest w' where m:
    "backup_photos ?e fresh_world ''42'' 5 =
              Some ([(''success'', PyBool True),
                     (''total_photos'', PyInt (int (length five_photos))),
                     (''uploaded_photos'',
                        PyInt (int (length (filter
                          (item_uploads (env_strftime ?e) one_transport_fault (sort_photos five_photos))
                          (sort_photos five_photos))))),
                     (''folder_name'', PyStr (''VK_Photos_'' @ ''42'' @ ''_'' @ env_today ?e)),
                     (''json_file'', PyStr (''photos_info_'' @ ''42'' @ ''.json'')),
                     (''photos_info'', PyList manifest)], w')"
    "list_all2 entry_for
              (filter (item_uploads (env_strftime ?e) one_transport_fault (sort_photos five_photos))
                 (sort_photos five_photos)) manifest"
    by blast
  from m(1) run have "manifest = [\<lparr>file_name = ''5_1970-01-01.jpg'', size_tag = ''y''\<rparr>,
      \<lparr>file_name = ''7.jpg'', size_tag = ''x''\<rparr>,
      \<lparr>file_name = ''5_1970-01-01_104.jpg'', size_tag = ''x''\<rparr>,
      \<lparr>file_name = ''0.jpg'', size_tag = ''m''\<rparr>]"
    by simp
  with m(2) fl have la: "list_all2 entry_for [photo_a, photo_c, photo_d, photo_e]
     [\<lparr>file_name = ''5_1970-01-01.jpg'', size_tag = ''y''\<rparr>,
      \<lparr>file_name = ''7.jpg'', size_tag = ''x''\<rparr>,
      \<lparr>file_name = ''5_1970-01-01_104.jpg'', size_tag = ''x''\<rparr>,
      \<lparr>file_name = ''0.jpg'', size_tag = ''m''\<rparr>]"
    by (simp add: st)
  let ?st0 = "\<lparr>ls_world = fresh_world, ls_photos_info = [], ls_successful_uploads = 0,
             ls_used_filenames = {||}\<rparr>"
  from t [unfolded st] have "\<forall>p rest st folder. \<not> ?ok p \<longrightarrow>
            (\<exists>st'. upload_loop ?e (sort_photos five_photos) folder (p # rest) st =
                     upload_loop ?e (sort_photos five_photos) folder rest st' \<and>
                   ls_photos_info st' = ls_photos_info st \<and>
                   ls_successful_uploads st' = ls_successful_uploads st)"
    by (rule conjunct2)
  with nb obtain st' where s:
    "upload_loop ?e (sort_photos five_photos) ''F'' (photo_b # [photo_a]) ?st0 =
       upload_loop ?e (sort_photos five_photos) ''F'' [photo_a] st'"
    "ls_photos_info st' = ls_photos_info ?st0"
    "ls_successful_uploads st' = ls_successful_uploads ?st0"
    by blast
  from s(2) have s2: "ls_photos_info st' = []" by simp
  from s(3) have s3: "ls_successful_uploads st' = 0" by simp
  from s(1) s2 s3 have iso: "\<exists>st'. upload_loop ?e (sort_photos five_photos)
            ''F'' [photo_b, photo_a] ?st0 =
          upload_loop ?e (sort_photos five_photos) ''F'' [photo_a] st' \<and>
          ls_photos_info st' = [] \<and> ls_successful_uploads st' = 0"
    by blast
  from n5 fl nb run la iso show ?thesis by blast
qed

end
